theory Spec2Isabelle
  imports Complex_Main "HOL-Library.Sublist"
begin

section \<open>Data model of scripts.js\<close>

text \<open>
  JavaScript numbers are IEEE-754 doubles. They are idealised here as the reals: every
  arithmetic operation of the source is the exact operation, and NaN and the infinities
  do not exist. All statements below are statements about this exact-arithmetic reading
  of the code. Object literals \<^verbatim>\<open>{x, y}\<close> are the record \<open>vec\<close>.
\<close>

record vec =
  vec_x :: real
  vec_y :: real

text \<open>The fields that the constructor of \<^verbatim>\<open>class Body\<close> assigns (lines 149-162).\<close>

record body =
  name :: string
  mass :: real
  r :: vec
  v :: vec
  color :: string
  radiusKm :: real
  sideSize :: real
  renderRadius :: real
  hasRings :: bool
  textureSeed :: real
  info :: string

text \<open>The global \<^verbatim>\<open>sim\<close> object (lines 55-67); \<^verbatim>\<open>sim.f\<close> is \<open>sim_f\<close>.\<close>

record sim =
  sim_bodies :: "body list"
  sim_trails :: "vec list list"
  sim_timeDays :: real
  sim_running :: bool
  sim_dt :: real
  sim_pixelsPerAU :: real
  sim_trailLength :: nat
  sim_pan :: vec
  sim_centerOnSun :: bool
  sim_focusedIndex :: nat
  sim_warmupDone :: bool

text \<open>The \<^verbatim>\<open>CONFIG\<close> object (lines 43-52), the entries the physics reads.\<close>

definition CONFIG_timeStepPerFrameDefault :: real where
  "CONFIG_timeStepPerFrameDefault = 0.65"

definition CONFIG_pixelsPerAUDefault :: real where
  "CONFIG_pixelsPerAUDefault = 160"

definition CONFIG_trailLengthDefault :: nat where
  "CONFIG_trailLengthDefault = 1600"

definition CONFIG_G :: real where
  "CONFIG_G = 4 * pi * pi / (365.25 * 365.25)"

definition CONFIG_artisticGravityScale :: real where
  "CONFIG_artisticGravityScale = 1.0"

definition CONFIG_maxSubSteps :: int where
  "CONFIG_maxSubSteps = 6"

text \<open>The only exception the physics can raise: a method call on \<^verbatim>\<open>undefined\<close>.\<close>

datatype error = TypeError

section \<open>Physics: computeAccelerations (lines 302-327)\<close>

text \<open>
  The body of the inner loop for one pair \<open>i < j\<close> (lines 309-323): it adds the pull of
  \<open>j\<close> to \<open>acc[i]\<close> and subtracts the pull of \<open>i\<close> from \<open>acc[j]\<close>.
\<close>

definition pairStep :: "body list \<Rightarrow> nat \<Rightarrow> nat \<Rightarrow> vec list \<Rightarrow> vec list" where
  "pairStep bodies i j acc =
     (let bi = bodies ! i; bj = bodies ! j;
          dx = vec_x (r bj) - vec_x (r bi);
          dy = vec_y (r bj) - vec_y (r bi);
          dist2 = dx * dx + dy * dy + 1 / 10 ^ 12;
          dist = sqrt dist2;
          aOnI = (CONFIG_G * mass bj * CONFIG_artisticGravityScale) / dist2;
          ax = aOnI * (dx / dist);
          ay = aOnI * (dy / dist);
          acc1 = acc[i := \<lparr>vec_x = vec_x (acc ! i) + ax, vec_y = vec_y (acc ! i) + ay\<rparr>];
          aOnJ = (CONFIG_G * mass bi * CONFIG_artisticGravityScale) / dist2
      in acc1[j := \<lparr>vec_x = vec_x (acc1 ! j) - aOnJ * (dx / dist),
                    vec_y = vec_y (acc1 ! j) - aOnJ * (dy / dist)\<rparr>])"

text \<open>The inner loop \<^verbatim>\<open>for (let j = i + 1; j < n; j++)\<close>.\<close>

definition pairLoop :: "body list \<Rightarrow> nat \<Rightarrow> nat \<Rightarrow> vec list \<Rightarrow> vec list" where
  "pairLoop bodies n i acc = fold (pairStep bodies i) [i + 1..<n] acc"

definition computeAccelerations :: "body list \<Rightarrow> vec list" where
  "computeAccelerations bodies =
     (let n = length bodies;
          acc = replicate n \<lparr>vec_x = 0, vec_y = 0\<rparr>
      in fold (pairLoop bodies n) [0..<n] acc)"

section \<open>Physics: velocityVerletStep (lines 330-354)\<close>

text \<open>Lines 334-338: the position update of body \<open>i\<close>, in place.\<close>

definition movePosition :: "real \<Rightarrow> vec list \<Rightarrow> nat \<Rightarrow> body list \<Rightarrow> body list" where
  "movePosition h a0 i bodies =
     (let b = bodies ! i
      in bodies[i := b\<lparr>r :=
           \<lparr>vec_x = vec_x (r b) + (vec_x (v b) * h + 0.5 * vec_x (a0 ! i) * h * h),
            vec_y = vec_y (r b) + (vec_y (v b) * h + 0.5 * vec_y (a0 ! i) * h * h)\<rparr>\<rparr>])"

text \<open>Lines 341-345: the velocity update of body \<open>i\<close>, in place.\<close>

definition moveVelocity :: "real \<Rightarrow> vec list \<Rightarrow> vec list \<Rightarrow> nat \<Rightarrow> body list \<Rightarrow> body list" where
  "moveVelocity h a0 a1 i bodies =
     (let b = bodies ! i
      in bodies[i := b\<lparr>v :=
           \<lparr>vec_x = vec_x (v b) + 0.5 * (vec_x (a0 ! i) + vec_x (a1 ! i)) * h,
            vec_y = vec_y (v b) + 0.5 * (vec_y (a0 ! i) + vec_y (a1 ! i)) * h\<rparr>\<rparr>])"

text \<open>
  Lines 349-350 on one trail: \<^verbatim>\<open>push\<close> the new position, then \<^verbatim>\<open>shift\<close> one
  entry out at the front when the trail is longer than \<^verbatim>\<open>sim.trailLength\<close>.
\<close>

definition appendCapped :: "nat \<Rightarrow> vec list \<Rightarrow> vec \<Rightarrow> vec list" where
  "appendCapped cap t p = (let t' = t @ [p] in if length t' > cap then tl t' else t')"

text \<open>
  Lines 348-351 for body \<open>i\<close>. When \<^verbatim>\<open>sim.trails[i]\<close> is \<^verbatim>\<open>undefined\<close> the call
  of \<^verbatim>\<open>push\<close> throws.
\<close>

definition pushTrail :: "body list \<Rightarrow> nat \<Rightarrow> nat \<Rightarrow> vec list list \<Rightarrow> error + vec list list" where
  "pushTrail bodies cap i trails =
     (if i < length trails
      then Inr (trails[i := appendCapped cap (trails ! i)
                  \<lparr>vec_x = vec_x (r (bodies ! i)), vec_y = vec_y (r (bodies ! i))\<rparr>])
      else Inl TypeError)"

fun trailLoop :: "body list \<Rightarrow> nat \<Rightarrow> nat list \<Rightarrow> vec list list \<Rightarrow> error + vec list list" where
  "trailLoop bodies cap [] trails = Inr trails"
| "trailLoop bodies cap (i # is) trails =
     (case pushTrail bodies cap i trails of
        Inl e \<Rightarrow> Inl e
      | Inr trails' \<Rightarrow> trailLoop bodies cap is trails')"

definition velocityVerletStep :: "real \<Rightarrow> sim \<Rightarrow> error + sim" where
  "velocityVerletStep h s =
     (let n = length (sim_bodies s);
          a0 = computeAccelerations (sim_bodies s);
          moved = fold (movePosition h a0) [0..<n] (sim_bodies s);
          a1 = computeAccelerations moved;
          kicked = fold (moveVelocity h a0 a1) [0..<n] moved
      in case trailLoop kicked (sim_trailLength s) [0..<n] (sim_trails s) of
           Inl e \<Rightarrow> Inl e
         | Inr trails' \<Rightarrow>
             Inr (s\<lparr>sim_bodies := kicked, sim_trails := trails',
                    sim_timeDays := sim_timeDays s + h\<rparr>))"

section \<open>The physics update of renderFrame (lines 663-671)\<close>

text \<open>The loop \<^verbatim>\<open>for (let s = 0; s < sub; s++) velocityVerletStep(subDt)\<close>.\<close>

fun stepLoop :: "nat \<Rightarrow> real \<Rightarrow> sim \<Rightarrow> error + sim" where
  "stepLoop 0 h s = Inr s"
| "stepLoop (Suc k) h s =
     (case velocityVerletStep h s of
        Inl e \<Rightarrow> Inl e
      | Inr s' \<Rightarrow> stepLoop k h s')"

definition subSteps :: "real \<Rightarrow> int" where
  "subSteps targetDt = max 1 (min CONFIG_maxSubSteps \<lceil>targetDt / 0.9\<rceil>)"

definition renderFramePhysics :: "sim \<Rightarrow> error + sim" where
  "renderFramePhysics s =
     (if sim_running s
      then (let targetDt = sim_dt s;
                sub = subSteps targetDt;
                subDt = targetDt / of_int sub
            in stepLoop (nat sub) subDt s)
      else Inr s)"

text \<open>The utility \<^verbatim>\<open>clamp\<close> of line 74.\<close>

definition clamp :: "int \<Rightarrow> int \<Rightarrow> int \<Rightarrow> int" where
  "clamp x a b = max a (min b x)"


section \<open>Diagnostics: computeEnergy (lines 357-372)\<close>

record energy =
  energy_K :: real
  energy_U :: real
  energy_total :: real

text \<open>The inner loop body (lines 364-368): the potential of the pair \<open>i < j\<close>.\<close>

definition potentialStep :: "body list \<Rightarrow> nat \<Rightarrow> nat \<Rightarrow> real \<Rightarrow> real" where
  "potentialStep bodies i j U =
     (let bi = bodies ! i; bj = bodies ! j;
          dx = vec_x (r bi) - vec_x (r bj);
          dy = vec_y (r bi) - vec_y (r bj);
          d = sqrt (dx * dx + dy * dy) + 1 / 10 ^ 12
      in U - CONFIG_G * mass bi * mass bj / d)"

text \<open>The outer loop body (lines 360-369) on the pair of accumulators \<open>(K, U)\<close>.\<close>

definition energyStep :: "body list \<Rightarrow> nat \<Rightarrow> real \<times> real \<Rightarrow> real \<times> real" where
  "energyStep bodies i KU =
     (let bi = bodies ! i;
          v2 = vec_x (v bi) * vec_x (v bi) + vec_y (v bi) * vec_y (v bi)
      in (fst KU + 0.5 * mass bi * v2,
          fold (potentialStep bodies i) [i + 1..<length bodies] (snd KU)))"

definition computeEnergy :: "sim \<Rightarrow> energy" where
  "computeEnergy s =
     (let KU = fold (energyStep (sim_bodies s)) [0..<length (sim_bodies s)] (0, 0)
      in \<lparr>energy_K = fst KU, energy_U = snd KU, energy_total = fst KU + snd KU\<rparr>)"

section \<open>Warm-up (lines 769-780)\<close>



section \<open>Body class and setupDefaultBodies (lines 149-162, 203-294)\<close>

text \<open>
  \<^verbatim>\<open>Math.random()\<close> is a stream of draws: a call takes the head and leaves the rest.
\<close>

type_synonym rng = "nat \<Rightarrow> real"

definition random :: "rng \<Rightarrow> real \<times> rng" where
  "random g = (g 0, \<lambda>n. g (Suc n))"

text \<open>
  The argument object of the constructor; a property that a caller leaves out is \<open>None\<close>.
  The operator \<^verbatim>\<open>||\<close> takes its right operand when the left one is \<^verbatim>\<open>undefined\<close>,
  zero, the empty string or \<^verbatim>\<open>false\<close>.
\<close>

record opts =
  opts_name :: string
  opts_mass :: real
  opts_x :: "real option"
  opts_y :: "real option"
  opts_vx :: "real option"
  opts_vy :: "real option"
  opts_color :: "string option"
  opts_radiusKm :: "real option"
  opts_sideSize :: "real option"
  opts_renderRadius :: "real option"
  opts_rings :: "bool option"
  opts_info :: "string option"

definition orNum :: "real option \<Rightarrow> real \<Rightarrow> real" where
  "orNum a d = (case a of None \<Rightarrow> d | Some n \<Rightarrow> if n = 0 then d else n)"

definition orStr :: "string option \<Rightarrow> string \<Rightarrow> string" where
  "orStr a d = (case a of None \<Rightarrow> d | Some t \<Rightarrow> if t = [] then d else t)"

definition orBool :: "bool option \<Rightarrow> bool \<Rightarrow> bool" where
  "orBool a d = (case a of None \<Rightarrow> d | Some t \<Rightarrow> if t then t else d)"

text \<open>
  The constructor (lines 150-162). \<^verbatim>\<open>Math.log10\<close> is \<open>log 10\<close>, which is the source's
  value on positive arguments only; \<open>setupDefaultBodies\<close> always passes a non-zero
  \<^verbatim>\<open>renderRadius\<close>, so that branch is never taken there.
\<close>

definition newBody :: "opts \<Rightarrow> rng \<Rightarrow> body \<times> rng" where
  "newBody opts g =
     (let radius = orNum (opts_radiusKm opts) 1000;
          (seed, g') = random g
      in (\<lparr>name = opts_name opts,
           mass = opts_mass opts,
           r = \<lparr>vec_x = orNum (opts_x opts) 0, vec_y = orNum (opts_y opts) 0\<rparr>,
           v = \<lparr>vec_x = orNum (opts_vx opts) 0, vec_y = orNum (opts_vy opts) 0\<rparr>,
           color = orStr (opts_color opts) ''#ffffff'',
           radiusKm = radius,
           sideSize = orNum (opts_sideSize opts) 1,
           renderRadius = orNum (opts_renderRadius opts)
                            (max 3 (log 10 (if radius = 0 then 1000 else radius) * 2.0)),
           hasRings = orBool (opts_rings opts) False,
           textureSeed = seed,
           info = orStr (opts_info opts) []\<rparr>, g'))"

text \<open>A number as \<^verbatim>\<open>'Asteroid-' + k\<close> prints it.\<close>

fun string_of_nat :: "nat \<Rightarrow> string" where
  "string_of_nat n =
     (if n < 10 then [char_of (48 + n)]
      else string_of_nat (n div 10) @ [char_of (48 + n mod 10)])"

declare string_of_nat.simps [simp del]

text \<open>
  An entry of \<^verbatim>\<open>presets\<close> (lines 220-230); the properties \<^verbatim>\<open>synthetic\<close> and
  \<^verbatim>\<open>rings\<close> are \<open>False\<close> where an entry leaves them out.
\<close>

record preset =
  p_name :: string
  p_a :: real
  p_mass :: real
  p_color :: string
  p_radiusKm :: real
  p_rFactor :: real
  p_synthetic :: bool
  p_rings :: bool

definition mkPreset :: "string \<Rightarrow> real \<Rightarrow> real \<Rightarrow> string \<Rightarrow> real \<Rightarrow> real \<Rightarrow> bool \<Rightarrow> bool \<Rightarrow> preset" where
  "mkPreset n a m c rk rf syn rings =
     \<lparr>p_name = n, p_a = a, p_mass = m, p_color = c, p_radiusKm = rk, p_rFactor = rf,
      p_synthetic = syn, p_rings = rings\<rparr>"

definition presets :: "preset list" where
  "presets =
     [mkPreset ''Mercury'' 0.387 (1.6601 / 10 ^ 7) ''#bdbdbd'' 2439.7 0.9 False False,
      mkPreset ''Venus'' 0.723 (2.447 / 10 ^ 6) ''#e4cdb2'' 6051.8 1.0 False False,
      mkPreset ''Earth'' 1.000 (3.003 / 10 ^ 6) ''#5da8ff'' 6371.0 1.0 False False,
      mkPreset ''Mars'' 1.524 (3.213 / 10 ^ 7) ''#ff9a6b'' 3389.5 0.95 False False,
      mkPreset ''AsteroidBelt'' 2.8 (3 / 10 ^ 9) ''#9a9a9a'' 600 0.5 True False,
      mkPreset ''Jupiter'' 5.203 0.0009543 ''#d9b48f'' 69911 1.6 False False,
      mkPreset ''Saturn'' 9.537 0.0002857 ''#f7e6bf'' 58232 1.4 False True,
      mkPreset ''Uranus'' 19.191 (4.366 / 10 ^ 5) ''#d1f4ff'' 25362 1.1 False False,
      mkPreset ''Neptune'' 30.07 (5.151 / 10 ^ 5) ''#6f9fff'' 24622 1.1 False False]"

text \<open>
  The loop state of the set-up is \<^verbatim>\<open>sim.bodies\<close> and the random stream;
  \<^verbatim>\<open>push\<close> appends. First the body of the asteroid loop (lines 239-256).
\<close>

definition asteroidStep :: "preset \<Rightarrow> nat \<Rightarrow> body list \<times> rng \<Rightarrow> body list \<times> rng" where
  "asteroidStep p k st =
     (let (u1, g1) = random (snd st);
          angle = u1 * pi * 2;
          (u2, g2) = random g1;
          radiusVariation = (u2 - 0.5) * 0.25;
          a = p_a p + radiusVariation;
          x = cos angle * a;
          y = sin angle * a;
          (u3, g3) = random g2;
          (b, g4) = newBody
            \<lparr>opts_name = ''Asteroid-'' @ string_of_nat k, opts_mass = 3 / 10 ^ 12,
             opts_x = Some x, opts_y = Some y, opts_vx = None, opts_vy = None,
             opts_color = Some ''#9c9c9c'', opts_radiusKm = Some (80 + u3 * 120),
             opts_sideSize = None, opts_renderRadius = Some (p_rFactor p * 0.45),
             opts_rings = None, opts_info = None\<rparr> g3;
          vYear = 2 * pi / sqrt a
      in (fst st @ [b\<lparr>v := \<lparr>vec_x = - sin angle * vYear / 365.25,
                             vec_y = cos angle * vYear / 365.25\<rparr>\<rparr>], g4))"

text \<open>
  The body of the loop over the presets (lines 234-280). The dash of the info text is
  U+2014, written as its three UTF-8 bytes.
\<close>

definition presetStep :: "preset \<Rightarrow> body list \<times> rng \<Rightarrow> body list \<times> rng" where
  "presetStep p st =
     (if p_synthetic p then fold (asteroidStep p) [0..<120] st
      else
        (let (u, g1) = random (snd st);
             angle0 = u * pi * 2;
             x0 = cos angle0 * p_a p;
             y0 = sin angle0 * p_a p;
             vYear = 2 * pi / sqrt (p_a p);
             vx0 = - sin angle0 * vYear / 365.25;
             vy0 = cos angle0 * vYear / 365.25;
             (b, g2) = newBody
               \<lparr>opts_name = p_name p, opts_mass = p_mass p,
                opts_x = Some x0, opts_y = Some y0, opts_vx = Some vx0, opts_vy = Some vy0,
                opts_color = Some (p_color p), opts_radiusKm = Some (p_radiusKm p),
                opts_sideSize = None, opts_renderRadius = Some (p_rFactor p),
                opts_rings = Some (p_rings p),
                opts_info = Some (p_name p @ '' '' @ [CHR 0xE2, CHR 0x80, CHR 0x94]
                                    @ '' beautiful planet'')\<rparr> g1
         in (fst st @ [b], g2)))"

text \<open>Lines 284-288: the loop that sums the momentum into \<^verbatim>\<open>px\<close> and \<^verbatim>\<open>py\<close>.\<close>

definition momentumStep :: "body \<Rightarrow> real \<times> real \<Rightarrow> real \<times> real" where
  "momentumStep b pxy = (fst pxy + mass b * vec_x (v b), snd pxy + mass b * vec_y (v b))"

definition sunOpts :: opts where
  "sunOpts =
     \<lparr>opts_name = ''Sun'', opts_mass = 1.0,
      opts_x = Some 0, opts_y = Some 0, opts_vx = Some 0, opts_vy = Some 0,
      opts_color = Some ''#ffd86b'', opts_radiusKm = Some 695700,
      opts_sideSize = None, opts_renderRadius = Some 3.5,
      opts_rings = None,
      opts_info = Some ''The star at the center of the solar system''\<rparr>"

definition setupDefaultBodies :: "rng \<Rightarrow> sim \<Rightarrow> sim \<times> rng" where
  "setupDefaultBodies g s =
     (let (sun, g1) = newBody sunOpts g;
          (placed, g2) = fold presetStep presets ([sun], g1);
          pxy = fold momentumStep placed (0, 0);
          b0 = placed ! 0;
          nudged = placed[0 := b0\<lparr>v := \<lparr>vec_x = - fst pxy / mass b0,
                                        vec_y = - snd pxy / mass b0\<rparr>\<rparr>]
      in (s\<lparr>sim_bodies := nudged, sim_trails := map (\<lambda>b. []) nudged\<rparr>, g2))"

section \<open>Notions of the specification\<close>

text \<open>
  The definitions of this section follow the words of the specification, not the code;
  the theorems compare them with the code.
\<close>

text \<open>
  Section 4.1: the pull of body \<open>j\<close> on body \<open>i\<close>: \<open>d = posJ - posI\<close>,
  \<open>r2 = |d|\<^sup>2 + \<epsilon>\<close>, \<open>r = sqrt r2\<close>, magnitude \<open>G * massJ * gravityScale / r2\<close>,
  direction \<open>d / r\<close>.
\<close>

definition softening :: real where
  "softening = 1 / 10 ^ 12"

definition softDist2 :: "body list \<Rightarrow> nat \<Rightarrow> nat \<Rightarrow> real" where
  "softDist2 bodies i j =
     (vec_x (r (bodies ! j)) - vec_x (r (bodies ! i))) ^ 2
     + (vec_y (r (bodies ! j)) - vec_y (r (bodies ! i))) ^ 2 + softening"

definition pull :: "body list \<Rightarrow> nat \<Rightarrow> nat \<Rightarrow> vec" where
  "pull bodies i j =
     (let r2 = softDist2 bodies i j;
          magnitude = CONFIG_G * mass (bodies ! j) * CONFIG_artisticGravityScale / r2
      in \<lparr>vec_x = magnitude * ((vec_x (r (bodies ! j)) - vec_x (r (bodies ! i))) / sqrt r2),
          vec_y = magnitude * ((vec_y (r (bodies ! j)) - vec_y (r (bodies ! i))) / sqrt r2)\<rparr>)"

text \<open>The net pull on body \<open>i\<close>: the sum over all other bodies.\<close>

definition netPull :: "body list \<Rightarrow> nat \<Rightarrow> vec" where
  "netPull bodies i =
     \<lparr>vec_x = (\<Sum>j \<in> {0..<length bodies} - {i}. vec_x (pull bodies i j)),
      vec_y = (\<Sum>j \<in> {0..<length bodies} - {i}. vec_y (pull bodies i j))\<rparr>"

text \<open>Section 4.4: the total momentum, the sum of mass times velocity.\<close>

definition totalMomentum :: "body list \<Rightarrow> vec" where
  "totalMomentum bodies =
     \<lparr>vec_x = (\<Sum>b \<leftarrow> bodies. mass b * vec_x (v b)),
      vec_y = (\<Sum>b \<leftarrow> bodies. mass b * vec_y (v b))\<rparr>"

text \<open>
  Section 4.4: the start of a near-circular orbit of semi-major axis \<open>a\<close> at a given
  angle: the position on the circle of radius \<open>a\<close>, and the velocity of magnitude
  \<open>2\<pi> / sqrt a\<close> per year, in days, perpendicular to the radius.
\<close>

definition onOrbit :: "real \<Rightarrow> real \<Rightarrow> vec" where
  "onOrbit a angle = \<lparr>vec_x = cos angle * a, vec_y = sin angle * a\<rparr>"

definition circularVelocity :: "real \<Rightarrow> real \<Rightarrow> vec" where
  "circularVelocity a angle =
     \<lparr>vec_x = - sin angle * (2 * pi / sqrt a) / 365.25,
      vec_y = cos angle * (2 * pi / sqrt a) / 365.25\<rparr>"

text \<open>
  Section 4.5: kinetic energy, and the potential energy over the pairs \<open>i < j\<close> for a
  given notion of distance.
\<close>

definition kinetic :: "body list \<Rightarrow> real" where
  "kinetic bodies =
     (\<Sum>b \<leftarrow> bodies. 0.5 * mass b * ((vec_x (v b)) ^ 2 + (vec_y (v b)) ^ 2))"

definition euclid :: "body list \<Rightarrow> nat \<Rightarrow> nat \<Rightarrow> real" where
  "euclid bodies i j =
     sqrt ((vec_x (r (bodies ! i)) - vec_x (r (bodies ! j))) ^ 2
           + (vec_y (r (bodies ! i)) - vec_y (r (bodies ! j))) ^ 2)"

definition potential :: "(body list \<Rightarrow> nat \<Rightarrow> nat \<Rightarrow> real) \<Rightarrow> body list \<Rightarrow> real" where
  "potential distance bodies =
     (\<Sum>i \<leftarrow> [0..<length bodies]. \<Sum>j \<leftarrow> [i + 1..<length bodies].
        - (CONFIG_G * mass (bodies ! i) * mass (bodies ! j) / distance bodies i j))"

text \<open>A run of integrator calls, one for each step size of the list, in order.\<close>

fun runSteps :: "real list \<Rightarrow> sim \<Rightarrow> error + sim" where
  "runSteps [] s = Inr s"
| "runSteps (h # hs) s =
     (case velocityVerletStep h s of
        Inl e \<Rightarrow> Inl e
      | Inr s' \<Rightarrow> runSteps hs s')"

text \<open>The positions of body \<open>i\<close> after each call of such a run, in order.\<close>

fun recorded :: "real list \<Rightarrow> sim \<Rightarrow> nat \<Rightarrow> vec list" where
  "recorded [] s i = []"
| "recorded (h # hs) s i =
     (case velocityVerletStep h s of
        Inl e \<Rightarrow> []
      | Inr s' \<Rightarrow> r (sim_bodies s' ! i) # recorded hs s' i)"

section \<open>Closed forms of the loops\<close>

text \<open>
  What the loops of \<open>velocityVerletStep\<close> do to one body, and to the whole list; the
  lemmas below show that the loops compute these.
\<close>

definition newPos :: "real \<Rightarrow> vec list \<Rightarrow> nat \<Rightarrow> body \<Rightarrow> body" where
  "newPos h a0 i b = b\<lparr>r :=
           \<lparr>vec_x = vec_x (r b) + (vec_x (v b) * h + 0.5 * vec_x (a0 ! i) * h * h),
            vec_y = vec_y (r b) + (vec_y (v b) * h + 0.5 * vec_y (a0 ! i) * h * h)\<rparr>\<rparr>"

definition newVel :: "real \<Rightarrow> vec list \<Rightarrow> vec list \<Rightarrow> nat \<Rightarrow> body \<Rightarrow> body" where
  "newVel h a0 a1 i b = b\<lparr>v :=
           \<lparr>vec_x = vec_x (v b) + 0.5 * (vec_x (a0 ! i) + vec_x (a1 ! i)) * h,
            vec_y = vec_y (v b) + 0.5 * (vec_y (a0 ! i) + vec_y (a1 ! i)) * h\<rparr>\<rparr>"

definition stepBodies :: "real \<Rightarrow> body list \<Rightarrow> body list" where
  "stepBodies h bodies =
     (let a0 = computeAccelerations bodies;
          moved = map (\<lambda>i. newPos h a0 i (bodies ! i)) [0..<length bodies];
          a1 = computeAccelerations moved
      in map (\<lambda>i. newVel h a0 a1 i (moved ! i)) [0..<length bodies])"

text \<open>
  The bodies whose pull on body \<open>k\<close> has been added once the outer loop of
  \<open>computeAccelerations\<close> has run for the first \<open>m\<close> of \<open>n\<close> bodies.
\<close>

definition pulledBy :: "nat \<Rightarrow> nat \<Rightarrow> nat \<Rightarrow> nat set" where
  "pulledBy n m k = {j. j < n \<and> j \<noteq> k \<and> (j < m \<or> k < m)}"

text \<open>The distance that \<open>computeEnergy\<close> divides by (line 367).\<close>

definition softenedDistance :: "body list \<Rightarrow> nat \<Rightarrow> nat \<Rightarrow> real" where
  "softenedDistance bodies i j = euclid bodies i j + softening"

text \<open>The random stream after \<open>d\<close> draws have been taken from it.\<close>

definition drawsFrom :: "nat \<Rightarrow> rng \<Rightarrow> rng" where
  "drawsFrom d g = (\<lambda>n. g (d + n))"

text \<open>A body with a given name and mass, placed at an angle of the orbit of axis \<open>a\<close>.\<close>

definition placedAt :: "string \<Rightarrow> real \<Rightarrow> real \<Rightarrow> real \<Rightarrow> body \<Rightarrow> bool" where
  "placedAt nm m a angle b \<longleftrightarrow>
     name b = nm \<and> mass b = m \<and> r b = onOrbit a angle \<and> v b = circularVelocity a angle"

section \<open>Example states\<close>

text \<open>
  Small concrete bodies and states at which the theorems below are evaluated: one body
  moving freely, and two bodies close to or far from each other.
\<close>

definition demoBody :: "real \<Rightarrow> vec \<Rightarrow> vec \<Rightarrow> body" where
  "demoBody m p w =
     \<lparr>name = ''demo'', mass = m, r = p, v = w, color = ''#ffffff'', radiusKm = 1000,
      sideSize = 1, renderRadius = 3, hasRings = False, textureSeed = 0, info = []\<rparr>"

definition demoSim :: "body list \<Rightarrow> real \<Rightarrow> nat \<Rightarrow> sim" where
  "demoSim bodies h cap =
     \<lparr>sim_bodies = bodies, sim_trails = map (\<lambda>b. []) bodies, sim_timeDays = 0,
      sim_running = True, sim_dt = h, sim_pixelsPerAU = CONFIG_pixelsPerAUDefault,
      sim_trailLength = cap, sim_pan = \<lparr>vec_x = 0, vec_y = 0\<rparr>, sim_centerOnSun = True,
      sim_focusedIndex = 0, sim_warmupDone = False\<rparr>"

definition demo1 :: sim where
  "demo1 = demoSim [demoBody 2 \<lparr>vec_x = 1, vec_y = 2\<rparr> \<lparr>vec_x = 3, vec_y = 4\<rparr>] 0 1600"

definition demo54 :: sim where
  "demo54 = demoSim [demoBody 2 \<lparr>vec_x = 1, vec_y = 2\<rparr> \<lparr>vec_x = 3, vec_y = 4\<rparr>] 5.4 1600"

definition demoCap1 :: sim where
  "demoCap1 = demoSim [demoBody 2 \<lparr>vec_x = 1, vec_y = 2\<rparr> \<lparr>vec_x = 3, vec_y = 4\<rparr>] 1 1"

definition demoCap1After :: sim where
  "demoCap1After =
     demoCap1\<lparr>sim_bodies := [demoBody 2 \<lparr>vec_x = 7, vec_y = 10\<rparr> \<lparr>vec_x = 3, vec_y = 4\<rparr>],
               sim_trails := [[\<lparr>vec_x = 7, vec_y = 10\<rparr>]], sim_timeDays := 2\<rparr>"



definition nearPair :: "real \<Rightarrow> real \<Rightarrow> body list" where
  "nearPair m0 m1 =
     [demoBody m0 \<lparr>vec_x = 0, vec_y = 0\<rparr> \<lparr>vec_x = 0, vec_y = 0\<rparr>,
      demoBody m1 \<lparr>vec_x = 4 / 3000000, vec_y = 0\<rparr> \<lparr>vec_x = 0, vec_y = 0\<rparr>]"

definition demoNear :: sim where
  "demoNear = demoSim (nearPair 25 50) 1 1600"

definition farPair :: "body list" where
  "farPair =
     [demoBody 1 \<lparr>vec_x = 0, vec_y = 0\<rparr> \<lparr>vec_x = 0, vec_y = 0\<rparr>,
      demoBody 1 \<lparr>vec_x = 3, vec_y = 4\<rparr> \<lparr>vec_x = 0, vec_y = 0\<rparr>]"

section \<open>Lemmas about the loops\<close>

subsection \<open>Loops that update one index at a time\<close>

lemma fold_update_nth:
  assumes "distinct js" "\<forall>j\<in>set js. j < length xs"
  shows "length (fold (\<lambda>i ys. ys[i := g i (ys ! i)]) js xs) = length xs \<and>
         (\<forall>k<length xs. fold (\<lambda>i ys. ys[i := g i (ys ! i)]) js xs ! k =
             (if k \<in> set js then g k (xs ! k) else xs ! k))"
  using assms
proof (induction js arbitrary: xs)
  case Nil
  then show ?case by simp
next
  case (Cons j js)
  let ?xs = "xs[j := g j (xs ! j)]"
  have "distinct js" "\<forall>i\<in>set js. i < length ?xs" using Cons.prems by auto
  from Cons.IH[OF this] show ?case using Cons.prems by (auto simp: nth_list_update)
qed

lemma movePosition_fold:
  "fold (movePosition h a0) [0..<length bs] bs = map (\<lambda>i. newPos h a0 i (bs ! i)) [0..<length bs]"
proof -
  have eq: "movePosition h a0 = (\<lambda>i ys. ys[i := newPos h a0 i (ys ! i)])"
    by (intro ext) (simp add: movePosition_def newPos_def Let_def)
  show ?thesis
    unfolding eq using fold_update_nth[of "[0..<length bs]" bs "newPos h a0"]
    by (intro nth_equalityI) simp_all
qed

lemma moveVelocity_fold:
  "fold (moveVelocity h a0 a1) [0..<length bs] bs = map (\<lambda>i. newVel h a0 a1 i (bs ! i)) [0..<length bs]"
proof -
  have eq: "moveVelocity h a0 a1 = (\<lambda>i ys. ys[i := newVel h a0 a1 i (ys ! i)])"
    by (intro ext) (simp add: moveVelocity_def newVel_def Let_def)
  show ?thesis
    unfolding eq using fold_update_nth[of "[0..<length bs]" bs "newVel h a0 a1"]
    by (intro nth_equalityI) simp_all
qed

lemma vec_eta: "\<lparr>vec_x = vec_x (p::vec), vec_y = vec_y p\<rparr> = p"
  by simp

lemma trailLoop_nth:
  assumes "distinct js" "\<forall>j\<in>set js. j < length trails"
  shows "\<exists>t'. trailLoop bodies cap js trails = Inr t' \<and> length t' = length trails \<and>
         (\<forall>k<length trails. t' ! k =
             (if k \<in> set js then appendCapped cap (trails ! k) (r (bodies ! k)) else trails ! k))"
  using assms
proof (induction js arbitrary: trails)
  case Nil
  then show ?case by simp
next
  case (Cons j js)
  let ?t = "trails[j := appendCapped cap (trails ! j) (r (bodies ! j))]"
  have j: "j < length trails" using Cons.prems by simp
  have step: "pushTrail bodies cap j trails = Inr ?t"
    using j by (simp add: pushTrail_def vec_eta)
  have "distinct js" "\<forall>i\<in>set js. i < length ?t" using Cons.prems by auto
  from Cons.IH[OF this] obtain t' where t': "trailLoop bodies cap js ?t = Inr t'"
    "length t' = length ?t"
    "\<forall>k<length ?t. t' ! k =
       (if k \<in> set js then appendCapped cap (?t ! k) (r (bodies ! k)) else ?t ! k)"
    by blast
  have "trailLoop bodies cap (j # js) trails = Inr t'" using step t'(1) by simp
  moreover have "length t' = length trails" using t'(2) by simp
  moreover have "\<forall>k<length trails. t' ! k =
      (if k \<in> set (j # js) then appendCapped cap (trails ! k) (r (bodies ! k)) else trails ! k)"
  proof (intro allI impI)
    fix k assume k: "k < length trails"
    have ne: "k \<in> set js \<Longrightarrow> k \<noteq> j" using Cons.prems(1) by auto
    show "t' ! k =
      (if k \<in> set (j # js) then appendCapped cap (trails ! k) (r (bodies ! k)) else trails ! k)"
      using t'(3) k ne j by (cases "k = j") (auto simp: nth_list_update)
  qed
  ultimately show ?case by blast
qed

lemma trailLoop_throws:
  "j \<in> set js \<Longrightarrow> length trails \<le> j \<Longrightarrow> trailLoop bodies cap js trails = Inl TypeError"
proof (induction js arbitrary: trails)
  case Nil
  then show ?case by simp
next
  case (Cons i js)
  show ?case
  proof (cases "i < length trails")
    case False
    then show ?thesis by (simp add: pushTrail_def)
  next
    case True
    then have "j \<in> set js" using Cons.prems by auto
    then show ?thesis using True Cons.IH Cons.prems(2) by (simp add: pushTrail_def)
  qed
qed

subsection \<open>One integrator step\<close>

lemma length_stepBodies: "length (stepBodies h bodies) = length bodies"
  by (simp add: stepBodies_def Let_def)

lemma velocityVerletStep_Inr:
  assumes "velocityVerletStep h s = Inr s'"
  shows "sim_bodies s' = stepBodies h (sim_bodies s)"
    and "trailLoop (stepBodies h (sim_bodies s)) (sim_trailLength s) [0..<length (sim_bodies s)] (sim_trails s) = Inr (sim_trails s')"
    and "sim_timeDays s' = sim_timeDays s + h"
    and "s' = s\<lparr>sim_bodies := sim_bodies s', sim_trails := sim_trails s', sim_timeDays := sim_timeDays s'\<rparr>"
proof -
  let ?n = "length (sim_bodies s)"
  let ?a0 = "computeAccelerations (sim_bodies s)"
  let ?moved = "fold (movePosition h ?a0) [0..<?n] (sim_bodies s)"
  let ?a1 = "computeAccelerations ?moved"
  let ?kicked = "fold (moveVelocity h ?a0 ?a1) [0..<?n] ?moved"
  have moved: "?moved = map (\<lambda>i. newPos h ?a0 i (sim_bodies s ! i)) [0..<?n]"
    by (rule movePosition_fold)
  have len: "length ?moved = ?n" by (simp add: moved)
  have "?kicked = map (\<lambda>i. newVel h ?a0 ?a1 i (?moved ! i)) [0..<length ?moved]"
    using moveVelocity_fold[of h ?a0 ?a1 ?moved] len by simp
  then have kicked: "?kicked = stepBodies h (sim_bodies s)"
    unfolding stepBodies_def Let_def moved by simp
  from assms obtain t' where
    t': "trailLoop ?kicked (sim_trailLength s) [0..<?n] (sim_trails s) = Inr t'"
    and s': "s' = s\<lparr>sim_bodies := ?kicked, sim_trails := t', sim_timeDays := sim_timeDays s + h\<rparr>"
    unfolding velocityVerletStep_def Let_def by (auto split: sum.splits)
  show "sim_bodies s' = stepBodies h (sim_bodies s)" using s' kicked by simp
  show "trailLoop (stepBodies h (sim_bodies s)) (sim_trailLength s) [0..<length (sim_bodies s)] (sim_trails s) = Inr (sim_trails s')"
    using t' s' kicked by simp
  show "sim_timeDays s' = sim_timeDays s + h" using s' by simp
  show "s' = s\<lparr>sim_bodies := sim_bodies s', sim_trails := sim_trails s', sim_timeDays := sim_timeDays s'\<rparr>"
    using s' by simp
qed

lemma velocityVerletStep_total:
  assumes "length (sim_bodies s) \<le> length (sim_trails s)"
  shows "\<exists>s'. velocityVerletStep h s = Inr s'"
proof -
  let ?n = "length (sim_bodies s)"
  let ?a0 = "computeAccelerations (sim_bodies s)"
  let ?moved = "fold (movePosition h ?a0) [0..<?n] (sim_bodies s)"
  let ?kicked = "fold (moveVelocity h ?a0 (computeAccelerations ?moved)) [0..<?n] ?moved"
  have "distinct [0..<?n]" "\<forall>j\<in>set [0..<?n]. j < length (sim_trails s)"
    using assms by auto
  from trailLoop_nth[OF this, of ?kicked "sim_trailLength s"]
  obtain t' where "trailLoop ?kicked (sim_trailLength s) [0..<?n] (sim_trails s) = Inr t'"
    by blast
  then show ?thesis
    unfolding velocityVerletStep_def Let_def by simp
qed

lemma velocityVerletStep_throws:
  assumes "length (sim_trails s) < length (sim_bodies s)"
  shows "velocityVerletStep h s = Inl TypeError"
proof -
  have "length (sim_trails s) \<in> set [0..<length (sim_bodies s)]" using assms by simp
  from trailLoop_throws[OF this] show ?thesis
    unfolding velocityVerletStep_def Let_def by simp
qed

lemma velocityVerletStep_lengths:
  assumes "velocityVerletStep h s = Inr s'"
  shows "length (sim_bodies s') = length (sim_bodies s)"
    and "length (sim_trails s') = length (sim_trails s)"
    and "length (sim_bodies s) \<le> length (sim_trails s)"
    and "sim_trailLength s' = sim_trailLength s"
proof -
  show le: "length (sim_bodies s) \<le> length (sim_trails s)"
    using assms velocityVerletStep_throws[of s h] by (cases "length (sim_trails s) < length (sim_bodies s)") auto
  show "length (sim_bodies s') = length (sim_bodies s)"
    using velocityVerletStep_Inr(1)[OF assms] by (simp add: length_stepBodies)
  have "distinct [0..<length (sim_bodies s)]" "\<forall>j\<in>set [0..<length (sim_bodies s)]. j < length (sim_trails s)"
    using le by auto
  from trailLoop_nth[OF this, of "stepBodies h (sim_bodies s)" "sim_trailLength s"]
  show "length (sim_trails s') = length (sim_trails s)"
    using velocityVerletStep_Inr(2)[OF assms] by auto
  show "sim_trailLength s' = sim_trailLength s"
    by (subst velocityVerletStep_Inr(4)[OF assms]) simp
qed

lemma velocityVerletStep_trail:
  assumes "velocityVerletStep h s = Inr s'" "k < length (sim_bodies s)"
  shows "sim_trails s' ! k = appendCapped (sim_trailLength s) (sim_trails s ! k) (r (sim_bodies s' ! k))"
proof -
  have le: "length (sim_bodies s) \<le> length (sim_trails s)"
    using velocityVerletStep_lengths(3)[OF assms(1)] .
  have "distinct [0..<length (sim_bodies s)]" "\<forall>j\<in>set [0..<length (sim_bodies s)]. j < length (sim_trails s)"
    using le by auto
  from trailLoop_nth[OF this, of "stepBodies h (sim_bodies s)" "sim_trailLength s"]
  show ?thesis
    using velocityVerletStep_Inr(1,2)[OF assms(1)] assms(2) le by auto
qed


lemma runSteps_lengths:
  "runSteps hs s = Inr s' \<Longrightarrow>
     length (sim_bodies s') = length (sim_bodies s) \<and>
     length (sim_trails s') = length (sim_trails s) \<and>
     sim_trailLength s' = sim_trailLength s"
proof (induction hs arbitrary: s)
  case Nil
  then show ?case by simp
next
  case (Cons h hs)
  then obtain s1 where s1: "velocityVerletStep h s = Inr s1" "runSteps hs s1 = Inr s'"
    by (auto split: sum.splits)
  show ?case using Cons.IH[OF s1(2)] velocityVerletStep_lengths[OF s1(1)] by simp
qed



lemma stepLoop_trace:
  "length (sim_bodies s) \<le> length (sim_trails s) \<Longrightarrow>
   \<exists>states. length states = Suc k \<and> states ! 0 = s \<and>
     (\<forall>i<k. velocityVerletStep h (states ! i) = Inr (states ! Suc i)) \<and>
     stepLoop k h s = Inr (states ! k)"
proof (induction k arbitrary: s)
  case 0
  show ?case by (rule exI[of _ "[s]"]) simp
next
  case (Suc k)
  from velocityVerletStep_total[OF Suc.prems] obtain s1 where
    s1: "velocityVerletStep h s = Inr s1" by blast
  have "length (sim_bodies s1) \<le> length (sim_trails s1)"
    using velocityVerletStep_lengths[OF s1] by simp
  from Suc.IH[OF this] obtain states where st: "length states = Suc k" "states ! 0 = s1"
    "\<forall>i<k. velocityVerletStep h (states ! i) = Inr (states ! Suc i)"
    "stepLoop k h s1 = Inr (states ! k)" by blast
  have "\<forall>i<Suc k. velocityVerletStep h ((s # states) ! i) = Inr ((s # states) ! Suc i)"
  proof (intro allI impI)
    fix i assume "i < Suc k"
    then show "velocityVerletStep h ((s # states) ! i) = Inr ((s # states) ! Suc i)"
      using s1 st(2,3) by (cases i) auto
  qed
  then show ?case using st s1 by (intro exI[of _ "s # states"]) simp
qed

lemma subSteps_clamp: "subSteps x = clamp \<lceil>x / 0.9\<rceil> 1 CONFIG_maxSubSteps"
  by (simp add: subSteps_def clamp_def)

lemma subSteps_range: "1 \<le> subSteps x \<and> subSteps x \<le> 6"
  by (simp add: subSteps_def CONFIG_maxSubSteps_def)


lemma subSteps_54: "subSteps 5.4 = 6"
  by (simp add: subSteps_def CONFIG_maxSubSteps_def)

lemma computeAccelerations_single: "computeAccelerations [b] = [\<lparr>vec_x = 0, vec_y = 0\<rparr>]"
  by (simp add: computeAccelerations_def pairLoop_def)

section \<open>The force evaluator\<close>

lemma softDist2_sym: "softDist2 bodies j i = softDist2 bodies i j"
  by (simp add: softDist2_def power2_commute)

lemma softDist2_pos: "0 < softDist2 bodies i j"
proof -
  have "0 \<le> (vec_x (r (bodies ! j)) - vec_x (r (bodies ! i)))\<^sup>2
           + (vec_y (r (bodies ! j)) - vec_y (r (bodies ! i)))\<^sup>2" by simp
  moreover have "0 < softening" by (simp add: softening_def)
  ultimately show ?thesis unfolding softDist2_def by (rule add_nonneg_pos)
qed

lemma pairStep_length: "length (pairStep bodies i j acc) = length acc"
  by (simp add: pairStep_def Let_def)

lemma pull_from:
  "vec_x (pull bodies j i) =
     - (CONFIG_G * mass (bodies ! i) * CONFIG_artisticGravityScale / softDist2 bodies i j
          * ((vec_x (r (bodies ! j)) - vec_x (r (bodies ! i))) / sqrt (softDist2 bodies i j)))"
  "vec_y (pull bodies j i) =
     - (CONFIG_G * mass (bodies ! i) * CONFIG_artisticGravityScale / softDist2 bodies i j
          * ((vec_y (r (bodies ! j)) - vec_y (r (bodies ! i))) / sqrt (softDist2 bodies i j)))"
proof -
  define g where "g = CONFIG_G * mass (bodies ! i) * CONFIG_artisticGravityScale / softDist2 bodies i j"
  define q where "q = sqrt (softDist2 bodies i j)"
  have x: "vec_x (pull bodies j i) = g * ((vec_x (r (bodies ! i)) - vec_x (r (bodies ! j))) / q)"
    and y: "vec_y (pull bodies j i) = g * ((vec_y (r (bodies ! i)) - vec_y (r (bodies ! j))) / q)"
    unfolding pull_def Let_def softDist2_sym[of bodies i j] g_def q_def by simp_all
  have neg: "g * ((a - b) / q) = - (g * ((b - a) / q))" for a b :: real
  proof -
    have "a - b = - (b - a)" by simp
    then show ?thesis by (simp only: minus_divide_left[symmetric] mult_minus_right)
  qed
  show "vec_x (pull bodies j i) =
     - (CONFIG_G * mass (bodies ! i) * CONFIG_artisticGravityScale / softDist2 bodies i j
          * ((vec_x (r (bodies ! j)) - vec_x (r (bodies ! i))) / sqrt (softDist2 bodies i j)))"
    unfolding x neg[of "vec_x (r (bodies ! i))"] unfolding g_def q_def ..
  show "vec_y (pull bodies j i) =
     - (CONFIG_G * mass (bodies ! i) * CONFIG_artisticGravityScale / softDist2 bodies i j
          * ((vec_y (r (bodies ! j)) - vec_y (r (bodies ! i))) / sqrt (softDist2 bodies i j)))"
    unfolding y neg[of "vec_y (r (bodies ! i))"] unfolding g_def q_def ..
qed

lemma pairStep_pull:
  "pairStep bodies i j acc =
     (let acc1 = acc[i := \<lparr>vec_x = vec_x (acc ! i) + vec_x (pull bodies i j),
                          vec_y = vec_y (acc ! i) + vec_y (pull bodies i j)\<rparr>]
      in acc1[j := \<lparr>vec_x = vec_x (acc1 ! j) + vec_x (pull bodies j i),
                    vec_y = vec_y (acc1 ! j) + vec_y (pull bodies j i)\<rparr>])"
proof -
  define dx where "dx = vec_x (r (bodies ! j)) - vec_x (r (bodies ! i))"
  define dy where "dy = vec_y (r (bodies ! j)) - vec_y (r (bodies ! i))"
  have d2: "dx * dx + dy * dy + 1 / 10 ^ 12 = softDist2 bodies i j"
    unfolding softDist2_def softening_def power2_eq_square dx_def dy_def ..
  have to_x: "CONFIG_G * mass (bodies ! j) * CONFIG_artisticGravityScale / softDist2 bodies i j
                * (dx / sqrt (softDist2 bodies i j)) = vec_x (pull bodies i j)"
    and to_y: "CONFIG_G * mass (bodies ! j) * CONFIG_artisticGravityScale / softDist2 bodies i j
                * (dy / sqrt (softDist2 bodies i j)) = vec_y (pull bodies i j)"
    unfolding pull_def Let_def dx_def dy_def by simp_all
  have from_x: "a - CONFIG_G * mass (bodies ! i) * CONFIG_artisticGravityScale / softDist2 bodies i j
                * (dx / sqrt (softDist2 bodies i j)) = a + vec_x (pull bodies j i)"
    and from_y: "a - CONFIG_G * mass (bodies ! i) * CONFIG_artisticGravityScale / softDist2 bodies i j
                * (dy / sqrt (softDist2 bodies i j)) = a + vec_y (pull bodies j i)" for a
    unfolding pull_from dx_def dy_def by simp_all
  show ?thesis
    unfolding pairStep_def Let_def dx_def[symmetric] dy_def[symmetric] d2 to_x to_y from_x from_y ..
qed

lemma pairStep_nth:
  assumes "i < length acc" "j < length acc" "i \<noteq> j"
  shows "vec_x (pairStep bodies i j acc ! k) =
           vec_x (acc ! k) + (if k = i then vec_x (pull bodies i j)
                              else if k = j then vec_x (pull bodies j i) else 0)"
    and "vec_y (pairStep bodies i j acc ! k) =
           vec_y (acc ! k) + (if k = i then vec_y (pull bodies i j)
                              else if k = j then vec_y (pull bodies j i) else 0)"
  using assms by (auto simp: pairStep_pull Let_def nth_list_update)

lemma pairLoop_nth:
  assumes "m \<le> length acc"
  shows "length (fold (pairStep bodies i) [Suc i..<m] acc) = length acc \<and>
     (\<forall>k. vec_x (fold (pairStep bodies i) [Suc i..<m] acc ! k) =
            vec_x (acc ! k) + (if k = i then (\<Sum>j \<in> {Suc i..<m}. vec_x (pull bodies i j))
                               else if i < k \<and> k < m then vec_x (pull bodies k i) else 0)) \<and>
     (\<forall>k. vec_y (fold (pairStep bodies i) [Suc i..<m] acc ! k) =
            vec_y (acc ! k) + (if k = i then (\<Sum>j \<in> {Suc i..<m}. vec_y (pull bodies i j))
                               else if i < k \<and> k < m then vec_y (pull bodies k i) else 0))"
  using assms
proof (induction m)
  case 0
  then show ?case by simp
next
  case (Suc m)
  show ?case
  proof (cases "Suc i \<le> m")
    case False
    then have "[Suc i..<Suc m] = []" by simp
    then show ?thesis using False by auto
  next
    case True
    let ?mid = "fold (pairStep bodies i) [Suc i..<m] acc"
    have IH: "length ?mid = length acc"
      "\<And>k. vec_x (?mid ! k) =
            vec_x (acc ! k) + (if k = i then (\<Sum>j \<in> {Suc i..<m}. vec_x (pull bodies i j))
                               else if i < k \<and> k < m then vec_x (pull bodies k i) else 0)"
      "\<And>k. vec_y (?mid ! k) =
            vec_y (acc ! k) + (if k = i then (\<Sum>j \<in> {Suc i..<m}. vec_y (pull bodies i j))
                               else if i < k \<and> k < m then vec_y (pull bodies k i) else 0)"
      using Suc by simp_all
    have unfold: "fold (pairStep bodies i) [Suc i..<Suc m] acc = pairStep bodies i m ?mid"
      using True by simp
    have idx: "i < length ?mid" "m < length ?mid" "i \<noteq> m"
      using True Suc.prems IH(1) by simp_all
    have sumx: "(\<Sum>j \<in> {Suc i..<Suc m}. vec_x (pull bodies i j))
        = (\<Sum>j \<in> {Suc i..<m}. vec_x (pull bodies i j)) + vec_x (pull bodies i m)"
      and sumy: "(\<Sum>j \<in> {Suc i..<Suc m}. vec_y (pull bodies i j))
        = (\<Sum>j \<in> {Suc i..<m}. vec_y (pull bodies i j)) + vec_y (pull bodies i m)"
      using True by simp_all
    have "\<forall>k. vec_x (pairStep bodies i m ?mid ! k) =
            vec_x (acc ! k) + (if k = i then (\<Sum>j \<in> {Suc i..<Suc m}. vec_x (pull bodies i j))
                               else if i < k \<and> k < Suc m then vec_x (pull bodies k i) else 0)"
      unfolding pairStep_nth(1)[OF idx] IH(2) sumx using True by auto
    moreover have "\<forall>k. vec_y (pairStep bodies i m ?mid ! k) =
            vec_y (acc ! k) + (if k = i then (\<Sum>j \<in> {Suc i..<Suc m}. vec_y (pull bodies i j))
                               else if i < k \<and> k < Suc m then vec_y (pull bodies k i) else 0)"
      unfolding pairStep_nth(2)[OF idx] IH(3) sumy using True by auto
    ultimately show ?thesis unfolding unfold using IH(1) by (simp add: pairStep_length)
  qed
qed

lemma finite_pulledBy: "finite (pulledBy n m k)"
  by (simp add: pulledBy_def)

lemma pulledBy_Suc:
  assumes "m < n" "k < n"
  shows "k = m \<Longrightarrow> pulledBy n (Suc m) k = pulledBy n m k \<union> {Suc m..<n}"
    and "k = m \<Longrightarrow> pulledBy n m k \<inter> {Suc m..<n} = {}"
    and "m < k \<Longrightarrow> pulledBy n (Suc m) k = insert m (pulledBy n m k)"
    and "m < k \<Longrightarrow> m \<notin> pulledBy n m k"
    and "k < m \<Longrightarrow> pulledBy n (Suc m) k = pulledBy n m k"
  using assms by (auto simp: pulledBy_def)

lemma sum_pulledBy_Suc:
  fixes f :: "nat \<Rightarrow> real"
  assumes "m < n" "k < n"
  shows "sum f (pulledBy n (Suc m) k) =
           sum f (pulledBy n m k) + (if k = m then sum f {Suc m..<n}
                                     else if m < k \<and> k < n then f m else 0)"
proof -
  consider "k = m" | "m < k" | "k < m" by linarith
  then show ?thesis
  proof cases
    case 1
    show ?thesis
      using pulledBy_Suc(1,2)[OF assms 1] 1 finite_pulledBy[of n m k]
      by (simp add: sum.union_disjoint)
  next
    case 2
    show ?thesis
      using pulledBy_Suc(3,4)[OF assms 2] 2 assms finite_pulledBy[of n m k] by simp
  next
    case 3
    show ?thesis using pulledBy_Suc(5)[OF assms 3] 3 by simp
  qed
qed

lemma accLoop_nth:
  assumes "m \<le> n" "length acc = n"
  shows "length (fold (pairLoop bodies n) [0..<m] acc) = n \<and>
     (\<forall>k<n. vec_x (fold (pairLoop bodies n) [0..<m] acc ! k) =
            vec_x (acc ! k) + (\<Sum>j \<in> pulledBy n m k. vec_x (pull bodies k j))) \<and>
     (\<forall>k<n. vec_y (fold (pairLoop bodies n) [0..<m] acc ! k) =
            vec_y (acc ! k) + (\<Sum>j \<in> pulledBy n m k. vec_y (pull bodies k j)))"
  using assms
proof (induction m)
  case 0
  have "pulledBy n 0 k = {}" for k by (simp add: pulledBy_def)
  then show ?case using 0 by simp
next
  case (Suc m)
  let ?mid = "fold (pairLoop bodies n) [0..<m] acc"
  have m: "m < n" using Suc.prems by simp
  have IH: "length ?mid = n"
    "\<And>k. k < n \<Longrightarrow> vec_x (?mid ! k) =
            vec_x (acc ! k) + (\<Sum>j \<in> pulledBy n m k. vec_x (pull bodies k j))"
    "\<And>k. k < n \<Longrightarrow> vec_y (?mid ! k) =
            vec_y (acc ! k) + (\<Sum>j \<in> pulledBy n m k. vec_y (pull bodies k j))"
    using Suc by simp_all
  have unfold: "fold (pairLoop bodies n) [0..<Suc m] acc = fold (pairStep bodies m) [Suc m..<n] ?mid"
    by (simp add: pairLoop_def)
  have le: "n \<le> length ?mid" using IH(1) by simp
  note inner = pairLoop_nth[OF le, of bodies m]
  have "\<forall>k<n. vec_x (fold (pairStep bodies m) [Suc m..<n] ?mid ! k) =
            vec_x (acc ! k) + (\<Sum>j \<in> pulledBy n (Suc m) k. vec_x (pull bodies k j))"
  proof (intro allI impI)
    fix k assume k: "k < n"
    show "vec_x (fold (pairStep bodies m) [Suc m..<n] ?mid ! k) =
            vec_x (acc ! k) + (\<Sum>j \<in> pulledBy n (Suc m) k. vec_x (pull bodies k j))"
      unfolding sum_pulledBy_Suc[OF m k] using inner IH(2)[OF k] by simp
  qed
  moreover have "\<forall>k<n. vec_y (fold (pairStep bodies m) [Suc m..<n] ?mid ! k) =
            vec_y (acc ! k) + (\<Sum>j \<in> pulledBy n (Suc m) k. vec_y (pull bodies k j))"
  proof (intro allI impI)
    fix k assume k: "k < n"
    show "vec_y (fold (pairStep bodies m) [Suc m..<n] ?mid ! k) =
            vec_y (acc ! k) + (\<Sum>j \<in> pulledBy n (Suc m) k. vec_y (pull bodies k j))"
      unfolding sum_pulledBy_Suc[OF m k] using inner IH(3)[OF k] by simp
  qed
  ultimately show ?case unfolding unfold using inner IH(1) by simp
qed

lemma pulledBy_all: "k < n \<Longrightarrow> pulledBy n n k = {0..<n} - {k}"
  by (auto simp: pulledBy_def)

lemma computeAccelerations_length: "length (computeAccelerations bodies) = length bodies"
  using accLoop_nth[of "length bodies" "length bodies" "replicate (length bodies) \<lparr>vec_x = 0, vec_y = 0\<rparr>" bodies]
  by (simp add: computeAccelerations_def Let_def)

lemma computeAccelerations_nth:
  assumes "k < length bodies"
  shows "computeAccelerations bodies ! k = netPull bodies k"
proof -
  let ?n = "length bodies"
  let ?acc = "replicate ?n \<lparr>vec_x = 0, vec_y = 0\<rparr>"
  have l: "length ?acc = ?n" by simp
  from accLoop_nth[OF order_refl l, of bodies] assms
  have "vec_x (computeAccelerations bodies ! k) = vec_x (netPull bodies k)"
    "vec_y (computeAccelerations bodies ! k) = vec_y (netPull bodies k)"
    by (simp_all add: computeAccelerations_def Let_def netPull_def pulledBy_all)
  then show ?thesis by (rule vec.equality) simp
qed

lemma CONFIG_G_pos: "0 < CONFIG_G"
  by (simp add: CONFIG_G_def)

lemma pull_coincident:
  assumes "r (bodies ! i) = r (bodies ! j)"
  shows "softDist2 bodies i j = softening" and "pull bodies i j = \<lparr>vec_x = 0, vec_y = 0\<rparr>"
  using assms by (simp_all add: softDist2_def pull_def Let_def)

lemma netPull_pair:
  "netPull [bi, bj] 0 = pull [bi, bj] 0 (Suc 0)"
  "netPull [bi, bj] (Suc 0) = pull [bi, bj] (Suc 0) 0"
proof -
  have s: "{0..<length [bi, bj]} - {0} = {Suc 0}" "{0..<length [bi, bj]} - {Suc 0} = {0}"
    by auto
  show "netPull [bi, bj] 0 = pull [bi, bj] 0 (Suc 0)"
    "netPull [bi, bj] (Suc 0) = pull [bi, bj] (Suc 0) 0"
    unfolding netPull_def s by simp_all
qed

lemma computeAccelerations_pair:
  "computeAccelerations [bi, bj] = [pull [bi, bj] 0 1, pull [bi, bj] 1 0]"
proof (intro nth_equalityI)
  show "length (computeAccelerations [bi, bj]) = length [pull [bi, bj] 0 1, pull [bi, bj] 1 0]"
    by (simp add: computeAccelerations_length)
next
  fix k assume "k < length (computeAccelerations [bi, bj])"
  then have "k < 2" by (simp add: computeAccelerations_length)
  then consider "k = 0" | "k = 1" by linarith
  then show "computeAccelerations [bi, bj] ! k = [pull [bi, bj] 0 1, pull [bi, bj] 1 0] ! k"
    by cases (simp_all add: computeAccelerations_nth netPull_pair)
qed

lemma sqrt_near: "sqrt (25 / 9000000000000) = 5 / 3000000"
  by (rule real_sqrt_unique) (simp_all add: power2_eq_square)

lemma nearPair_pulls:
  "pull (nearPair m0 m1) 0 1 = \<lparr>vec_x = 288000000000 * (CONFIG_G * m1), vec_y = 0\<rparr>"
  "pull (nearPair m0 m1) 1 0 = \<lparr>vec_x = - (288000000000 * (CONFIG_G * m0)), vec_y = 0\<rparr>"
proof -
  have d: "softDist2 (nearPair m0 m1) 0 1 = 25 / 9000000000000"
    "softDist2 (nearPair m0 m1) 1 0 = 25 / 9000000000000"
    by (simp_all add: softDist2_def softening_def nearPair_def demoBody_def power2_eq_square)
  show "pull (nearPair m0 m1) 0 1 = \<lparr>vec_x = 288000000000 * (CONFIG_G * m1), vec_y = 0\<rparr>"
    unfolding pull_def Let_def d sqrt_near
    by (simp add: nearPair_def demoBody_def CONFIG_artisticGravityScale_def)
  show "pull (nearPair m0 m1) 1 0 = \<lparr>vec_x = - (288000000000 * (CONFIG_G * m0)), vec_y = 0\<rparr>"
    unfolding pull_def Let_def d sqrt_near
    by (simp add: nearPair_def demoBody_def CONFIG_artisticGravityScale_def)
qed

text \<open>
  Claim C2. The force evaluator returns one acceleration for every body, and the
  acceleration of body \<open>i\<close> is the sum over all other bodies \<open>j\<close> of the pull
  \<open>G * massJ * gravityScale / r2\<close> along \<open>d / r\<close>, with \<open>d = posJ - posI\<close>,
  \<open>r2 = |d|\<^sup>2 + \<epsilon>\<close> and \<open>r = sqrt r2\<close>. The softened \<open>r2\<close> is at least \<open>\<epsilon> > 0\<close> for every
  pair, so no division is by zero; coincident bodies pull each other with zero
  acceleration. The evaluator is a function of the list of bodies and returns only the
  accelerations: no body is changed.
\<close>

theorem computeAccelerations_net_pull:
  "length (computeAccelerations bodies) = length bodies \<and>
   (\<forall>i<length bodies. computeAccelerations bodies ! i = netPull bodies i) \<and>
   0 < softening \<and>
   (\<forall>i j. softening \<le> softDist2 bodies i j \<and> 0 < sqrt (softDist2 bodies i j)) \<and>
   (\<forall>i j. r (bodies ! i) = r (bodies ! j) \<longrightarrow>
      softDist2 bodies i j = softening \<and> pull bodies i j = \<lparr>vec_x = 0, vec_y = 0\<rparr>)"
proof -
  have "softening \<le> softDist2 bodies i j" for i j
    by (simp add: softDist2_def)
  moreover have "0 < sqrt (softDist2 bodies i j)" for i j
    using softDist2_pos[of bodies i j] by simp
  moreover have "0 < softening" by (simp add: softening_def)
  ultimately show ?thesis
    using computeAccelerations_length[of bodies] computeAccelerations_nth[of _ bodies]
      pull_coincident[of bodies]
    by blast
qed

theorem computeAccelerations_net_pull_witness:
  "length (computeAccelerations (nearPair 25 50)) = 2 \<and>
   computeAccelerations (nearPair 25 50) ! 0 = netPull (nearPair 25 50) 0 \<and>
   netPull (nearPair 25 50) 0 = \<lparr>vec_x = 14400000000000 * CONFIG_G, vec_y = 0\<rparr> \<and>
   r (nearPair 25 50 ! 0) = r (nearPair 25 50 ! 0) \<and>
   pull (nearPair 25 50) 0 0 = \<lparr>vec_x = 0, vec_y = 0\<rparr>"
proof -
  have len: "length (nearPair 25 50) = 2" "0 < length (nearPair 25 50)"
    by (simp_all add: nearPair_def)
  have "netPull (nearPair 25 50) 0 = \<lparr>vec_x = 14400000000000 * CONFIG_G, vec_y = 0\<rparr>"
    using netPull_pair(1) nearPair_pulls(1)[of 25 50] by (simp add: nearPair_def)
  then show ?thesis
    using computeAccelerations_net_pull[of "nearPair 25 50"] len by auto
qed

text \<open>
  Claim C3, as stated, fails. For two near-coincident bodies of masses 25 and 50 the
  accelerations they give each other are opposite in direction, but the lighter body
  gets twice the acceleration of the heavier one.
\<close>

theorem pair_accelerations_differ:
  "computeAccelerations (nearPair 25 50) =
     [\<lparr>vec_x = 14400000000000 * CONFIG_G, vec_y = 0\<rparr>,
      \<lparr>vec_x = - (7200000000000 * CONFIG_G), vec_y = 0\<rparr>] \<and>
   (14400000000000 * CONFIG_G)\<^sup>2 + 0\<^sup>2 \<noteq> (- (7200000000000 * CONFIG_G))\<^sup>2 + 0\<^sup>2"
proof -
  have "computeAccelerations (nearPair 25 50) =
     [\<lparr>vec_x = 14400000000000 * CONFIG_G, vec_y = 0\<rparr>,
      \<lparr>vec_x = - (7200000000000 * CONFIG_G), vec_y = 0\<rparr>]"
    using computeAccelerations_pair nearPair_pulls[of 25 50] by (simp add: nearPair_def)
  moreover have "(14400000000000 * CONFIG_G)\<^sup>2 + 0\<^sup>2 \<noteq> (- (7200000000000 * CONFIG_G))\<^sup>2 + 0\<^sup>2"
    using CONFIG_G_pos by (simp add: power2_eq_square)
  ultimately show ?thesis by blast
qed

text \<open>
  Claim C3, amended. For any two bodies, whatever their positions and masses, the
  accelerations they give each other are opposite and weighted by the other body's
  mass: the mass of \<open>i\<close> times the acceleration of \<open>i\<close> is the negative of the mass of
  \<open>j\<close> times the acceleration of \<open>j\<close> (equal and opposite forces). The accelerations
  themselves are equal in magnitude and opposite when the two masses are equal.
\<close>

theorem pair_forces_opposite:
  "length (computeAccelerations [bi, bj]) = 2 \<and>
   mass bi * vec_x (computeAccelerations [bi, bj] ! 0)
     = - (mass bj * vec_x (computeAccelerations [bi, bj] ! 1)) \<and>
   mass bi * vec_y (computeAccelerations [bi, bj] ! 0)
     = - (mass bj * vec_y (computeAccelerations [bi, bj] ! 1)) \<and>
   (mass bi = mass bj \<longrightarrow>
      vec_x (computeAccelerations [bi, bj] ! 0) = - vec_x (computeAccelerations [bi, bj] ! 1) \<and>
      vec_y (computeAccelerations [bi, bj] ! 0) = - vec_y (computeAccelerations [bi, bj] ! 1))"
proof -
  define D where "D = softDist2 [bi, bj] 0 1"
  define X where "X = (vec_x (r bj) - vec_x (r bi)) / sqrt D"
  define Y where "Y = (vec_y (r bj) - vec_y (r bi)) / sqrt D"
  have to: "vec_x (pull [bi, bj] 0 1) = CONFIG_G * mass bj * CONFIG_artisticGravityScale / D * X"
    "vec_y (pull [bi, bj] 0 1) = CONFIG_G * mass bj * CONFIG_artisticGravityScale / D * Y"
    unfolding pull_def Let_def D_def X_def Y_def by simp_all
  have "from": "vec_x (pull [bi, bj] 1 0) = - (CONFIG_G * mass bi * CONFIG_artisticGravityScale / D * X)"
    "vec_y (pull [bi, bj] 1 0) = - (CONFIG_G * mass bi * CONFIG_artisticGravityScale / D * Y)"
    using pull_from[of "[bi, bj]" 1 0] unfolding D_def X_def Y_def by simp_all
  have acc: "computeAccelerations [bi, bj] ! 0 = pull [bi, bj] 0 1"
    "computeAccelerations [bi, bj] ! 1 = pull [bi, bj] 1 0"
    by (simp_all add: computeAccelerations_pair)
  show ?thesis
    unfolding acc to "from" by (simp add: computeAccelerations_length)
qed

theorem pair_forces_opposite_witness:
  "mass (nearPair 25 25 ! 0) = mass (nearPair 25 25 ! 1) \<and>
   vec_x (computeAccelerations (nearPair 25 25) ! 0) = - vec_x (computeAccelerations (nearPair 25 25) ! 1) \<and>
   vec_x (computeAccelerations (nearPair 25 25) ! 0) = 7200000000000 * CONFIG_G"
proof -
  have m: "mass (nearPair 25 25 ! 0) = mass (nearPair 25 25 ! 1)"
    by (simp add: nearPair_def demoBody_def)
  have v: "vec_x (computeAccelerations (nearPair 25 25) ! 0) = 7200000000000 * CONFIG_G"
    using computeAccelerations_pair nearPair_pulls(1)[of 25 25] by (simp add: nearPair_def)
  show ?thesis
    using pair_forces_opposite[of "nearPair 25 25 ! 0" "nearPair 25 25 ! 1"] m v
    by (simp add: nearPair_def)
qed

section \<open>The integrator step\<close>

lemma demoSim_step1:
  "velocityVerletStep h (demoSim [demoBody m p w] d cap) =
     Inr ((demoSim [demoBody m p w] d cap)
        \<lparr>sim_bodies := [demoBody m \<lparr>vec_x = vec_x p + vec_x w * h, vec_y = vec_y p + vec_y w * h\<rparr> w],
         sim_trails := [appendCapped cap [] \<lparr>vec_x = vec_x p + vec_x w * h, vec_y = vec_y p + vec_y w * h\<rparr>],
         sim_timeDays := h\<rparr>)"
  by (simp add: velocityVerletStep_def demoSim_def demoBody_def computeAccelerations_single movePosition_def
      moveVelocity_def pushTrail_def Let_def)

text \<open>
  Claim C1. One integrator step follows the velocity-Verlet order: the accelerations
  \<open>a0\<close> are those of the current positions; every position becomes
  \<open>pos + v*dt + 0.5*a0*dt\<^sup>2\<close> (the list \<open>moved\<close>, velocities still the old ones); the
  accelerations \<open>a1\<close> are those of \<open>moved\<close>; every velocity becomes
  \<open>v + 0.5*(a0+a1)*dt\<close>, the average of both accelerations. The step returns whenever
  every body has a trail.
\<close>

theorem velocityVerletStep_ordering:
  assumes "length (sim_bodies s) \<le> length (sim_trails s)"
  shows "\<exists>s' moved.
     velocityVerletStep dt s = Inr s' \<and>
     length moved = length (sim_bodies s) \<and>
     length (sim_bodies s') = length (sim_bodies s) \<and>
     (\<forall>i<length (sim_bodies s).
        moved ! i = (sim_bodies s ! i)\<lparr>r :=
          \<lparr>vec_x = vec_x (r (sim_bodies s ! i)) + vec_x (v (sim_bodies s ! i)) * dt
                    + 0.5 * vec_x (computeAccelerations (sim_bodies s) ! i) * dt\<^sup>2,
           vec_y = vec_y (r (sim_bodies s ! i)) + vec_y (v (sim_bodies s ! i)) * dt
                    + 0.5 * vec_y (computeAccelerations (sim_bodies s) ! i) * dt\<^sup>2\<rparr>\<rparr> \<and>
        r (sim_bodies s' ! i) = r (moved ! i) \<and>
        v (sim_bodies s' ! i) =
          \<lparr>vec_x = vec_x (v (sim_bodies s ! i))
                    + 0.5 * (vec_x (computeAccelerations (sim_bodies s) ! i)
                             + vec_x (computeAccelerations moved ! i)) * dt,
           vec_y = vec_y (v (sim_bodies s ! i))
                    + 0.5 * (vec_y (computeAccelerations (sim_bodies s) ! i)
                             + vec_y (computeAccelerations moved ! i)) * dt\<rparr>)"
proof -
  let ?bs = "sim_bodies s"
  let ?a0 = "computeAccelerations ?bs"
  let ?moved = "map (\<lambda>i. newPos dt ?a0 i (?bs ! i)) [0..<length ?bs]"
  from velocityVerletStep_total[OF assms] obtain s' where s': "velocityVerletStep dt s = Inr s'"
    by blast
  have bodies: "sim_bodies s' = map (\<lambda>i. newVel dt ?a0 (computeAccelerations ?moved) i (?moved ! i)) [0..<length ?bs]"
    using velocityVerletStep_Inr(1)[OF s'] by (simp add: stepBodies_def Let_def)
  have "\<forall>i<length ?bs.
        ?moved ! i = (?bs ! i)\<lparr>r :=
          \<lparr>vec_x = vec_x (r (?bs ! i)) + vec_x (v (?bs ! i)) * dt + 0.5 * vec_x (?a0 ! i) * dt\<^sup>2,
           vec_y = vec_y (r (?bs ! i)) + vec_y (v (?bs ! i)) * dt + 0.5 * vec_y (?a0 ! i) * dt\<^sup>2\<rparr>\<rparr> \<and>
        r (sim_bodies s' ! i) = r (?moved ! i) \<and>
        v (sim_bodies s' ! i) =
          \<lparr>vec_x = vec_x (v (?bs ! i)) + 0.5 * (vec_x (?a0 ! i) + vec_x (computeAccelerations ?moved ! i)) * dt,
           vec_y = vec_y (v (?bs ! i)) + 0.5 * (vec_y (?a0 ! i) + vec_y (computeAccelerations ?moved ! i)) * dt\<rparr>"
    unfolding bodies by (simp add: newPos_def newVel_def power2_eq_square algebra_simps)
  moreover have "length ?moved = length ?bs" by simp
  moreover have "length (sim_bodies s') = length ?bs" unfolding bodies by simp
  ultimately show ?thesis using s' by blast
qed

theorem velocityVerletStep_ordering_witness:
  "length (sim_bodies demo1) \<le> length (sim_trails demo1) \<and>
   (\<exists>s'. velocityVerletStep 2 demo1 = Inr s' \<and>
      r (sim_bodies s' ! 0) = \<lparr>vec_x = 7, vec_y = 10\<rparr> \<and>
      v (sim_bodies s' ! 0) = \<lparr>vec_x = 3, vec_y = 4\<rparr>) \<and>
   length (sim_bodies demoNear) \<le> length (sim_trails demoNear) \<and>
   (\<exists>s' moved. velocityVerletStep 1 demoNear = Inr s' \<and>
      r (sim_bodies s' ! 0) = \<lparr>vec_x = 7200000000000 * CONFIG_G, vec_y = 0\<rparr> \<and>
      r (moved ! 0) = r (sim_bodies s' ! 0) \<and>
      vec_x (v (sim_bodies s' ! 0)) =
        0.5 * (14400000000000 * CONFIG_G + vec_x (computeAccelerations moved ! 0)) * 1)"
proof -
  have len: "length (sim_bodies demo1) \<le> length (sim_trails demo1)"
    by (simp add: demo1_def demoSim_def)
  from velocityVerletStep_ordering[OF len, of 2] obtain s' moved where
    st: "velocityVerletStep 2 demo1 = Inr s'" "length moved = length (sim_bodies demo1)"
    and at: "\<forall>i<length (sim_bodies demo1).
        moved ! i = (sim_bodies demo1 ! i)\<lparr>r :=
          \<lparr>vec_x = vec_x (r (sim_bodies demo1 ! i)) + vec_x (v (sim_bodies demo1 ! i)) * 2
                    + 0.5 * vec_x (computeAccelerations (sim_bodies demo1) ! i) * 2\<^sup>2,
           vec_y = vec_y (r (sim_bodies demo1 ! i)) + vec_y (v (sim_bodies demo1 ! i)) * 2
                    + 0.5 * vec_y (computeAccelerations (sim_bodies demo1) ! i) * 2\<^sup>2\<rparr>\<rparr> \<and>
        r (sim_bodies s' ! i) = r (moved ! i) \<and>
        v (sim_bodies s' ! i) =
          \<lparr>vec_x = vec_x (v (sim_bodies demo1 ! i))
                    + 0.5 * (vec_x (computeAccelerations (sim_bodies demo1) ! i)
                             + vec_x (computeAccelerations moved ! i)) * 2,
           vec_y = vec_y (v (sim_bodies demo1 ! i))
                    + 0.5 * (vec_y (computeAccelerations (sim_bodies demo1) ! i)
                             + vec_y (computeAccelerations moved ! i)) * 2\<rparr>"
    by blast
  from st(2) obtain b where moved: "moved = [b]"
    by (cases moved) (simp_all add: demo1_def demoSim_def)
  have "r (sim_bodies s' ! 0) = \<lparr>vec_x = 7, vec_y = 10\<rparr> \<and>
      v (sim_bodies s' ! 0) = \<lparr>vec_x = 3, vec_y = 4\<rparr>"
    using at[rule_format, of 0] unfolding moved
    by (simp add: demo1_def demoSim_def demoBody_def computeAccelerations_single)
  then have one: "\<exists>s'. velocityVerletStep 2 demo1 = Inr s' \<and>
      r (sim_bodies s' ! 0) = \<lparr>vec_x = 7, vec_y = 10\<rparr> \<and>
      v (sim_bodies s' ! 0) = \<lparr>vec_x = 3, vec_y = 4\<rparr>"
    using st(1) by blast
  have len2: "length (sim_bodies demoNear) \<le> length (sim_trails demoNear)"
    and bodies2: "sim_bodies demoNear = nearPair 25 50"
    by (simp_all add: demoNear_def demoSim_def)
  have a0: "computeAccelerations (nearPair 25 50) ! 0 = \<lparr>vec_x = 14400000000000 * CONFIG_G, vec_y = 0\<rparr>"
    using computeAccelerations_pair nearPair_pulls(1)[of 25 50] by (simp add: nearPair_def)
  from velocityVerletStep_ordering[OF len2, of 1] obtain t' moved2 where
    st2: "velocityVerletStep 1 demoNear = Inr t'"
    and at2: "\<forall>i<length (sim_bodies demoNear).
        moved2 ! i = (sim_bodies demoNear ! i)\<lparr>r :=
          \<lparr>vec_x = vec_x (r (sim_bodies demoNear ! i)) + vec_x (v (sim_bodies demoNear ! i)) * 1
                    + 0.5 * vec_x (computeAccelerations (sim_bodies demoNear) ! i) * 1\<^sup>2,
           vec_y = vec_y (r (sim_bodies demoNear ! i)) + vec_y (v (sim_bodies demoNear ! i)) * 1
                    + 0.5 * vec_y (computeAccelerations (sim_bodies demoNear) ! i) * 1\<^sup>2\<rparr>\<rparr> \<and>
        r (sim_bodies t' ! i) = r (moved2 ! i) \<and>
        v (sim_bodies t' ! i) =
          \<lparr>vec_x = vec_x (v (sim_bodies demoNear ! i))
                    + 0.5 * (vec_x (computeAccelerations (sim_bodies demoNear) ! i)
                             + vec_x (computeAccelerations moved2 ! i)) * 1,
           vec_y = vec_y (v (sim_bodies demoNear ! i))
                    + 0.5 * (vec_y (computeAccelerations (sim_bodies demoNear) ! i)
                             + vec_y (computeAccelerations moved2 ! i)) * 1\<rparr>"
    by blast
  have z: "0 < length (sim_bodies demoNear)" by (simp add: bodies2 nearPair_def)
  have b0: "r (nearPair 25 50 ! 0) = \<lparr>vec_x = 0, vec_y = 0\<rparr>"
    "v (nearPair 25 50 ! 0) = \<lparr>vec_x = 0, vec_y = 0\<rparr>"
    by (simp_all add: nearPair_def demoBody_def)
  have "r (sim_bodies t' ! 0) = \<lparr>vec_x = 7200000000000 * CONFIG_G, vec_y = 0\<rparr> \<and>
      r (moved2 ! 0) = r (sim_bodies t' ! 0) \<and>
      vec_x (v (sim_bodies t' ! 0)) =
        0.5 * (14400000000000 * CONFIG_G + vec_x (computeAccelerations moved2 ! 0)) * 1"
    using at2[rule_format, OF z] unfolding bodies2 a0 b0 by simp
  then have two: "\<exists>s' moved. velocityVerletStep 1 demoNear = Inr s' \<and>
      r (sim_bodies s' ! 0) = \<lparr>vec_x = 7200000000000 * CONFIG_G, vec_y = 0\<rparr> \<and>
      r (moved ! 0) = r (sim_bodies s' ! 0) \<and>
      vec_x (v (sim_bodies s' ! 0)) =
        0.5 * (14400000000000 * CONFIG_G + vec_x (computeAccelerations moved ! 0)) * 1"
    using st2 by blast
  show ?thesis using len one len2 two by blast
qed

text \<open>
  Claim C10. A step that returns changes nothing but the positions and velocities of
  the bodies, the trails and the clock: every other field of every body is as before,
  the bodies are as many and in the same order, and every other field of \<open>sim\<close> is
  as before.
\<close>

theorem velocityVerletStep_frame:
  assumes "velocityVerletStep dt s = Inr s'"
  shows "length (sim_bodies s') = length (sim_bodies s) \<and>
     length (sim_trails s') = length (sim_trails s) \<and>
     (\<forall>i<length (sim_bodies s).
        (sim_bodies s' ! i)\<lparr>r := r (sim_bodies s ! i), v := v (sim_bodies s ! i)\<rparr> = sim_bodies s ! i \<and>
        name (sim_bodies s' ! i) = name (sim_bodies s ! i) \<and>
        mass (sim_bodies s' ! i) = mass (sim_bodies s ! i) \<and>
        color (sim_bodies s' ! i) = color (sim_bodies s ! i) \<and>
        radiusKm (sim_bodies s' ! i) = radiusKm (sim_bodies s ! i) \<and>
        sideSize (sim_bodies s' ! i) = sideSize (sim_bodies s ! i) \<and>
        renderRadius (sim_bodies s' ! i) = renderRadius (sim_bodies s ! i) \<and>
        hasRings (sim_bodies s' ! i) = hasRings (sim_bodies s ! i) \<and>
        textureSeed (sim_bodies s' ! i) = textureSeed (sim_bodies s ! i) \<and>
        info (sim_bodies s' ! i) = info (sim_bodies s ! i)) \<and>
     s'\<lparr>sim_bodies := sim_bodies s, sim_trails := sim_trails s, sim_timeDays := sim_timeDays s\<rparr> = s"
proof -
  have bodies: "sim_bodies s' = stepBodies dt (sim_bodies s)"
    using velocityVerletStep_Inr(1)[OF assms] .
  have rest: "s'\<lparr>sim_bodies := sim_bodies s, sim_trails := sim_trails s, sim_timeDays := sim_timeDays s\<rparr> = s"
    by (subst velocityVerletStep_Inr(4)[OF assms]) simp
  have fields: "\<forall>i<length (sim_bodies s).
        (sim_bodies s' ! i)\<lparr>r := r (sim_bodies s ! i), v := v (sim_bodies s ! i)\<rparr> = sim_bodies s ! i"
    unfolding bodies by (simp add: stepBodies_def Let_def newPos_def newVel_def)
  have "\<forall>i<length (sim_bodies s).
        name (sim_bodies s' ! i) = name (sim_bodies s ! i) \<and>
        mass (sim_bodies s' ! i) = mass (sim_bodies s ! i) \<and>
        color (sim_bodies s' ! i) = color (sim_bodies s ! i) \<and>
        radiusKm (sim_bodies s' ! i) = radiusKm (sim_bodies s ! i) \<and>
        sideSize (sim_bodies s' ! i) = sideSize (sim_bodies s ! i) \<and>
        renderRadius (sim_bodies s' ! i) = renderRadius (sim_bodies s ! i) \<and>
        hasRings (sim_bodies s' ! i) = hasRings (sim_bodies s ! i) \<and>
        textureSeed (sim_bodies s' ! i) = textureSeed (sim_bodies s ! i) \<and>
        info (sim_bodies s' ! i) = info (sim_bodies s ! i)"
    unfolding bodies by (simp add: stepBodies_def Let_def newPos_def newVel_def)
  then show ?thesis
    using fields rest velocityVerletStep_lengths(1,2)[OF assms] by simp
qed

theorem velocityVerletStep_frame_witness:
  "velocityVerletStep 2 demo1 =
     Inr (demo1\<lparr>sim_bodies := [demoBody 2 \<lparr>vec_x = 7, vec_y = 10\<rparr> \<lparr>vec_x = 3, vec_y = 4\<rparr>],
              sim_trails := [[\<lparr>vec_x = 7, vec_y = 10\<rparr>]], sim_timeDays := 2\<rparr>) \<and>
   mass (sim_bodies (demo1\<lparr>sim_bodies := [demoBody 2 \<lparr>vec_x = 7, vec_y = 10\<rparr> \<lparr>vec_x = 3, vec_y = 4\<rparr>],
              sim_trails := [[\<lparr>vec_x = 7, vec_y = 10\<rparr>]], sim_timeDays := 2\<rparr>) ! 0)
     = mass (sim_bodies demo1 ! 0)"
proof -
  have st: "velocityVerletStep 2 demo1 =
     Inr (demo1\<lparr>sim_bodies := [demoBody 2 \<lparr>vec_x = 7, vec_y = 10\<rparr> \<lparr>vec_x = 3, vec_y = 4\<rparr>],
              sim_trails := [[\<lparr>vec_x = 7, vec_y = 10\<rparr>]], sim_timeDays := 2\<rparr>)"
    unfolding demo1_def by (simp add: demoSim_step1 appendCapped_def)
  have "0 < length (sim_bodies demo1)" by (simp add: demo1_def demoSim_def)
  then show ?thesis using velocityVerletStep_frame[OF st] st by blast
qed

section \<open>The frame update\<close>

lemma renderFramePhysics_running:
  "sim_running s \<Longrightarrow>
   renderFramePhysics s =
     stepLoop (nat (subSteps (sim_dt s))) (sim_dt s / of_int (subSteps (sim_dt s))) s"
  by (simp add: renderFramePhysics_def Let_def)



text \<open>
  Claim C4. A running frame with a positive requested step computes
  \<open>subCount = clamp(ceil(requestedDt / 0.9), 1, maxSubSteps)\<close> with \<open>maxSubSteps = 6\<close> and
  \<open>subDt = requestedDt / subCount\<close>, and its physics update is the loop of \<open>subCount\<close>
  integrator calls with \<open>subDt\<close>; when every body has a trail these calls all return, one
  after the other on the successive states. A requested step of 5.4 gives 6 calls of 0.9.
\<close>

theorem renderFramePhysics_substeps:
  assumes "sim_running s" and "0 < sim_dt s"
  shows "CONFIG_maxSubSteps = 6 \<and>
     1 \<le> clamp \<lceil>sim_dt s / 0.9\<rceil> 1 CONFIG_maxSubSteps \<and>
     renderFramePhysics s =
       stepLoop (nat (clamp \<lceil>sim_dt s / 0.9\<rceil> 1 CONFIG_maxSubSteps))
         (sim_dt s / of_int (clamp \<lceil>sim_dt s / 0.9\<rceil> 1 CONFIG_maxSubSteps)) s \<and>
     (length (sim_bodies s) \<le> length (sim_trails s) \<longrightarrow>
       (\<exists>states.
          length states = Suc (nat (clamp \<lceil>sim_dt s / 0.9\<rceil> 1 CONFIG_maxSubSteps)) \<and>
          states ! 0 = s \<and>
          (\<forall>k<nat (clamp \<lceil>sim_dt s / 0.9\<rceil> 1 CONFIG_maxSubSteps).
             velocityVerletStep (sim_dt s / of_int (clamp \<lceil>sim_dt s / 0.9\<rceil> 1 CONFIG_maxSubSteps))
               (states ! k) = Inr (states ! Suc k)) \<and>
          renderFramePhysics s =
            Inr (states ! nat (clamp \<lceil>sim_dt s / 0.9\<rceil> 1 CONFIG_maxSubSteps)))) \<and>
     (sim_dt s = 5.4 \<longrightarrow>
        clamp \<lceil>sim_dt s / 0.9\<rceil> 1 CONFIG_maxSubSteps = 6 \<and>
        sim_dt s / of_int (clamp \<lceil>sim_dt s / 0.9\<rceil> 1 CONFIG_maxSubSteps) = 0.9)"
proof -
  let ?sub = "clamp \<lceil>sim_dt s / 0.9\<rceil> 1 CONFIG_maxSubSteps"
  have sub: "subSteps (sim_dt s) = ?sub" by (rule subSteps_clamp)
  have frame: "renderFramePhysics s = stepLoop (nat ?sub) (sim_dt s / of_int ?sub) s"
    using renderFramePhysics_running[OF assms(1)] sub by simp
  have one: "1 \<le> ?sub" using subSteps_range[of "sim_dt s"] sub by simp
  have trace: "length (sim_bodies s) \<le> length (sim_trails s) \<longrightarrow>
       (\<exists>states. length states = Suc (nat ?sub) \<and> states ! 0 = s \<and>
          (\<forall>k<nat ?sub. velocityVerletStep (sim_dt s / of_int ?sub) (states ! k) = Inr (states ! Suc k)) \<and>
          renderFramePhysics s = Inr (states ! nat ?sub))"
    using stepLoop_trace[of s "nat ?sub" "sim_dt s / of_int ?sub"] frame by simp
  have ex: "sim_dt s = 5.4 \<longrightarrow> ?sub = 6 \<and> sim_dt s / of_int ?sub = 0.9"
  proof
    assume h: "sim_dt s = 5.4"
    have "subSteps (sim_dt s) = 6" by (simp only: h subSteps_54)
    then have six: "?sub = 6" using sub by simp
    have "sim_dt s / 6 = 0.9" unfolding h by simp
    then show "?sub = 6 \<and> sim_dt s / of_int ?sub = 0.9" unfolding six by simp
  qed
  show ?thesis using frame one trace ex by (simp add: CONFIG_maxSubSteps_def)
qed

theorem renderFramePhysics_substeps_witness:
  "sim_running demo54 \<and> 0 < sim_dt demo54 \<and>
   length (sim_bodies demo54) \<le> length (sim_trails demo54) \<and>
   renderFramePhysics demo54 = stepLoop 6 0.9 demo54 \<and>
   (\<exists>states. length states = 7 \<and> states ! 0 = demo54 \<and>
      velocityVerletStep 0.9 (states ! 0) = Inr (states ! 1) \<and>
      velocityVerletStep 0.9 (states ! 5) = Inr (states ! 6) \<and>
      renderFramePhysics demo54 = Inr (states ! 6))"
proof -
  have run: "sim_running demo54" and pos: "0 < sim_dt demo54"
    and dt: "sim_dt demo54 = 5.4"
    and len: "length (sim_bodies demo54) \<le> length (sim_trails demo54)"
    by (simp_all add: demo54_def demoSim_def)
  note th = renderFramePhysics_substeps[OF run pos]
  have sub: "clamp \<lceil>sim_dt demo54 / 0.9\<rceil> 1 CONFIG_maxSubSteps = 6"
    using th dt by blast
  have subDt: "sim_dt demo54 / real_of_int 6 = 0.9" unfolding dt by simp
  have six: "nat 6 = 6" "Suc 6 = 7" by simp_all
  note th6 = th[unfolded sub subDt six]
  have frame: "renderFramePhysics demo54 = stepLoop 6 0.9 demo54"
    using th6 by blast
  from th6 len obtain states where st: "length states = 7" "states ! 0 = demo54"
    "\<forall>k<6. velocityVerletStep 0.9 (states ! k) = Inr (states ! Suc k)"
    "renderFramePhysics demo54 = Inr (states ! 6)"
    by blast
  have "velocityVerletStep 0.9 (states ! 0) = Inr (states ! 1)"
    "velocityVerletStep 0.9 (states ! 5) = Inr (states ! 6)"
    using st(3) by simp_all
  then show ?thesis using run pos len frame st(1,2,4) by blast
qed

section \<open>Trails\<close>

lemma appendCapped_drop:
  assumes "length t \<le> cap"
  shows "appendCapped cap t p = drop (length t + 1 - cap) (t @ [p])"
proof (cases "length t = cap")
  case True
  then have k: "length t + 1 - cap = Suc 0" by simp
  have "length (t @ [p]) > cap" using True by simp
  then have "appendCapped cap t p = tl (t @ [p])" by (simp add: appendCapped_def Let_def)
  also have "\<dots> = drop (Suc 0) (t @ [p])" by (simp only: drop_Suc drop_0)
  finally show ?thesis unfolding k .
next
  case False
  then have "length t + 1 - cap = 0" using assms by simp
  then show ?thesis using False assms by (simp add: appendCapped_def Let_def)
qed

lemma drop_capped_chain:
  assumes "length t \<le> cap"
  shows "drop (length (drop (length t + 1 - cap) (t @ [p])) + n - cap)
           (drop (length t + 1 - cap) (t @ [p]) @ rest)
         = drop (length t + Suc n - cap) (t @ p # rest)"
proof (cases "length t = cap")
  case True
  then have k: "length t + 1 - cap = Suc 0" "length t + Suc n - cap = Suc n" by simp_all
  show ?thesis unfolding k using True by (cases t) (simp_all add: drop_Suc)
next
  case False
  then have k: "length t + 1 - cap = 0" using assms by simp
  show ?thesis unfolding k by simp
qed

lemma appendCapped_length: "length t \<le> cap \<Longrightarrow> length (appendCapped cap t p) \<le> cap"
  by (auto simp: appendCapped_def Let_def)

lemma recorded_length: "runSteps hs s = Inr s' \<Longrightarrow> length (recorded hs s i) = length hs"
proof (induction hs arbitrary: s)
  case Nil
  then show ?case by simp
next
  case (Cons h hs)
  then obtain s1 where s1: "velocityVerletStep h s = Inr s1" "runSteps hs s1 = Inr s'"
    by (auto split: sum.splits)
  show ?case using Cons.IH[OF s1(2)] s1(1) by simp
qed

lemma runSteps_trail:
  assumes "runSteps hs s = Inr s'" "i < length (sim_bodies s)"
    and "length (sim_trails s ! i) \<le> sim_trailLength s"
  shows "sim_trails s' ! i =
           drop (length (sim_trails s ! i) + length hs - sim_trailLength s)
             (sim_trails s ! i @ recorded hs s i)"
  using assms
proof (induction hs arbitrary: s)
  case Nil
  then show ?case by simp
next
  case (Cons h hs)
  then obtain s1 where s1: "velocityVerletStep h s = Inr s1" "runSteps hs s1 = Inr s'"
    by (auto split: sum.splits)
  let ?cap = "sim_trailLength s"
  let ?t0 = "sim_trails s ! i"
  let ?p = "r (sim_bodies s1 ! i)"
  let ?k = "length ?t0 + 1 - ?cap"
  have t1: "sim_trails s1 ! i = drop ?k (?t0 @ [?p])"
    using velocityVerletStep_trail[OF s1(1) Cons.prems(2)] appendCapped_drop[OF Cons.prems(3)]
    by simp
  have cap1: "sim_trailLength s1 = ?cap" and n1: "i < length (sim_bodies s1)"
    using velocityVerletStep_lengths[OF s1(1)] Cons.prems(2) by simp_all
  have len1: "length (sim_trails s1 ! i) \<le> sim_trailLength s1"
    using Cons.prems(3) unfolding t1 cap1 by simp
  have rec: "recorded (h # hs) s i = ?p # recorded hs s1 i" using s1(1) by simp
  have "sim_trails s' ! i =
      drop (length (sim_trails s1 ! i) + length hs - ?cap) (sim_trails s1 ! i @ recorded hs s1 i)"
    using Cons.IH[OF s1(2) n1 len1] cap1 by simp
  also have "\<dots> = drop (length ?t0 + Suc (length hs) - ?cap) (?t0 @ ?p # recorded hs s1 i)"
    unfolding t1 by (rule drop_capped_chain[OF Cons.prems(3)])
  finally show ?case unfolding rec by simp
qed

lemma single_step:
  assumes "sim_bodies s = [b]" "sim_trails s = [t]"
  shows "velocityVerletStep h s =
     Inr (s\<lparr>sim_bodies := [b\<lparr>r := \<lparr>vec_x = vec_x (r b) + vec_x (v b) * h,
                                    vec_y = vec_y (r b) + vec_y (v b) * h\<rparr>\<rparr>],
            sim_trails := [appendCapped (sim_trailLength s) t
                             \<lparr>vec_x = vec_x (r b) + vec_x (v b) * h,
                              vec_y = vec_y (r b) + vec_y (v b) * h\<rparr>],
            sim_timeDays := sim_timeDays s + h\<rparr>)"
  using assms
  by (simp add: velocityVerletStep_def computeAccelerations_single movePosition_def
      moveVelocity_def pushTrail_def Let_def)

lemma demoCap1_run: "runSteps [1, 1] demoCap1 = Inr demoCap1After"
proof -
  let ?s1 = "demoCap1\<lparr>sim_bodies := [demoBody 2 \<lparr>vec_x = 4, vec_y = 6\<rparr> \<lparr>vec_x = 3, vec_y = 4\<rparr>],
               sim_trails := [[\<lparr>vec_x = 4, vec_y = 6\<rparr>]], sim_timeDays := 1\<rparr>"
  have 1: "velocityVerletStep 1 demoCap1 = Inr ?s1"
    by (subst single_step[of _ "demoBody 2 \<lparr>vec_x = 1, vec_y = 2\<rparr> \<lparr>vec_x = 3, vec_y = 4\<rparr>" "[]"])
       (simp_all add: demoCap1_def demoSim_def demoBody_def appendCapped_def)
  have 2: "velocityVerletStep 1 ?s1 = Inr demoCap1After"
    by (subst single_step[of _ "demoBody 2 \<lparr>vec_x = 4, vec_y = 6\<rparr> \<lparr>vec_x = 3, vec_y = 4\<rparr>" "[\<lparr>vec_x = 4, vec_y = 6\<rparr>]"])
       (simp_all add: demoCap1After_def demoCap1_def demoSim_def demoBody_def appendCapped_def)
  show ?thesis using 1 2 by simp
qed

text \<open>
  Claim C6. From a state in which the trail of a body is within the cap (after set-up
  it is empty), any run of integrator steps leaves it within the cap; the cap itself
  does not change; the trail is the old one followed by the positions of the body after
  each step, in that order, with just as many entries dropped at the front as exceed the
  cap: the oldest go first and the survivors keep their order.
\<close>

theorem trail_within_cap_fifo:
  assumes "length (sim_trails s ! i) \<le> sim_trailLength s"
    and "runSteps hs s = Inr s'"
    and "i < length (sim_bodies s)"
  shows "sim_trailLength s' = sim_trailLength s \<and>
     length (sim_trails s' ! i) \<le> sim_trailLength s' \<and>
     length (recorded hs s i) = length hs \<and>
     sim_trails s' ! i =
       drop (length (sim_trails s ! i) + length hs - sim_trailLength s)
         (sim_trails s ! i @ recorded hs s i) \<and>
     suffix (sim_trails s' ! i) (sim_trails s ! i @ recorded hs s i)"
proof -
  have cap: "sim_trailLength s' = sim_trailLength s"
    using runSteps_lengths[OF assms(2)] by simp
  have rec: "length (recorded hs s i) = length hs"
    by (rule recorded_length[OF assms(2)])
  have eq: "sim_trails s' ! i =
       drop (length (sim_trails s ! i) + length hs - sim_trailLength s)
         (sim_trails s ! i @ recorded hs s i)"
    by (rule runSteps_trail[OF assms(2,3,1)])
  have "length (sim_trails s' ! i) \<le> sim_trailLength s"
    unfolding eq using rec by simp
  moreover have "suffix (sim_trails s' ! i) (sim_trails s ! i @ recorded hs s i)"
    unfolding eq by (rule suffix_drop)
  ultimately show ?thesis using cap rec eq by simp
qed

theorem trail_within_cap_fifo_witness:
  "length (sim_trails demoCap1 ! 0) \<le> sim_trailLength demoCap1 \<and>
   runSteps [1, 1] demoCap1 = Inr demoCap1After \<and>
   0 < length (sim_bodies demoCap1) \<and>
   sim_trailLength demoCap1After = 1 \<and>
   length (sim_trails demoCap1After ! 0) \<le> sim_trailLength demoCap1After \<and>
   sim_trails demoCap1After ! 0 = drop 1 (recorded [1, 1] demoCap1 0)"
proof -
  have a: "length (sim_trails demoCap1 ! 0) \<le> sim_trailLength demoCap1"
    and c: "0 < length (sim_bodies demoCap1)"
    and d: "sim_trailLength demoCap1 = 1" "sim_trails demoCap1 ! 0 = []"
    by (simp_all add: demoCap1_def demoSim_def)
  from trail_within_cap_fifo[OF a demoCap1_run c]
  show ?thesis using a c demoCap1_run d by simp
qed

section \<open>The clock\<close>







section \<open>Non-positive steps and the clock\<close>









section \<open>The energy diagnostic\<close>

lemma potentialStep_eq:
  "potentialStep bodies i j U =
     U + - (CONFIG_G * mass (bodies ! i) * mass (bodies ! j) / softenedDistance bodies i j)"
  by (simp add: potentialStep_def softenedDistance_def euclid_def softening_def Let_def
      power2_eq_square)

lemma potentialLoop_eq:
  "fold (potentialStep bodies i) js U =
     U + (\<Sum>j \<leftarrow> js. - (CONFIG_G * mass (bodies ! i) * mass (bodies ! j) / softenedDistance bodies i j))"
  by (induction js arbitrary: U) (simp_all add: potentialStep_eq)

lemma energyLoop_eq:
  "fold (energyStep bodies) is KU =
     (fst KU + (\<Sum>i \<leftarrow> is. 0.5 * mass (bodies ! i)
                   * ((vec_x (v (bodies ! i)))\<^sup>2 + (vec_y (v (bodies ! i)))\<^sup>2)),
      snd KU + (\<Sum>i \<leftarrow> is. \<Sum>j \<leftarrow> [i + 1..<length bodies].
                   - (CONFIG_G * mass (bodies ! i) * mass (bodies ! j) / softenedDistance bodies i j)))"
proof (induction "is" arbitrary: KU)
  case Nil
  then show ?case by simp
next
  case (Cons i "is")
  show ?case
    unfolding fold_Cons comp_apply Cons.IH
    by (simp add: energyStep_def Let_def potentialLoop_eq power2_eq_square)
qed

lemma sum_list_nth:
  fixes f :: "'a \<Rightarrow> real"
  shows "(\<Sum>i \<leftarrow> [0..<length xs]. f (xs ! i)) = (\<Sum>x \<leftarrow> xs. f x)"
proof -
  have "map (\<lambda>i. f (xs ! i)) [0..<length xs] = map f (map ((!) xs) [0..<length xs])"
    by simp
  then show ?thesis by (simp only: map_nth)
qed

lemma computeEnergy_eq:
  "computeEnergy s =
     \<lparr>energy_K = kinetic (sim_bodies s),
      energy_U = potential softenedDistance (sim_bodies s),
      energy_total = kinetic (sim_bodies s) + potential softenedDistance (sim_bodies s)\<rparr>"
proof -
  have K: "(\<Sum>i \<leftarrow> [0..<length (sim_bodies s)]. 0.5 * mass (sim_bodies s ! i)
                   * ((vec_x (v (sim_bodies s ! i)))\<^sup>2 + (vec_y (v (sim_bodies s ! i)))\<^sup>2))
      = kinetic (sim_bodies s)"
    unfolding kinetic_def
    by (rule sum_list_nth[of "\<lambda>b. 0.5 * mass b * ((vec_x (v b))\<^sup>2 + (vec_y (v b))\<^sup>2)"])
  show ?thesis
    unfolding computeEnergy_def Let_def energyLoop_eq fst_conv snd_conv K potential_def
    by simp
qed

lemma potential_farPair:
  "potential distance farPair = - (CONFIG_G / distance farPair 0 (Suc 0))"
proof -
  have "[0..<length farPair] = [0, 1]" by (simp add: farPair_def upt_rec)
  moreover have "[0 + 1..<length farPair] = [1]" "[1 + 1..<length farPair] = []"
    by (simp_all add: farPair_def upt_rec)
  ultimately show ?thesis
    unfolding potential_def by (simp add: farPair_def demoBody_def)
qed

lemma euclid_farPair: "euclid farPair 0 (Suc 0) = 5"
proof -
  have "sqrt 25 = 5" by (rule real_sqrt_unique) simp_all
  then show ?thesis by (simp add: euclid_def farPair_def demoBody_def)
qed

text \<open>
  Claim C9, as stated, fails on the potential energy. For two bodies of mass 1 at
  distance 5 the code does not return \<open>- G / 5\<close>: it divides by \<open>5 + 10\<^sup>-\<^sup>1\<^sup>2\<close>.
\<close>

theorem potential_not_plain_distance:
  "euclid farPair 0 1 = 5 \<and>
   potential euclid farPair = - (CONFIG_G / 5) \<and>
   energy_U (computeEnergy (demoSim farPair 0 1600)) = - (CONFIG_G / (5 + 1 / 10 ^ 12)) \<and>
   energy_U (computeEnergy (demoSim farPair 0 1600)) \<noteq> potential euclid farPair"
proof -
  have a: "potential euclid farPair = - (CONFIG_G / 5)"
    by (simp add: potential_farPair euclid_farPair)
  have b: "energy_U (computeEnergy (demoSim farPair 0 1600)) = - (CONFIG_G / (5 + 1 / 10 ^ 12))"
    by (simp add: computeEnergy_eq demoSim_def potential_farPair softenedDistance_def
        euclid_farPair softening_def)
  have "CONFIG_G / (5 + 1 / 10 ^ 12) \<noteq> CONFIG_G / 5"
    using CONFIG_G_pos by simp
  then show ?thesis using a b euclid_farPair by simp
qed

text \<open>
  Claim C9, amended. The energy diagnostic returns the kinetic energy
  \<open>K = \<Sum> 0.5 * mass * |v|\<^sup>2\<close>, the potential energy \<open>U\<close> as the sum over the pairs \<open>i < j\<close>
  of \<open>- G * massI * massJ / (distance(i, j) + 10\<^sup>-\<^sup>1\<^sup>2)\<close>, the Euclidean distance plus the
  softening constant, and \<open>total = K + U\<close>. It is a function of the state and returns
  only these three numbers: the state is not changed.
\<close>

theorem computeEnergy_softened:
  "computeEnergy s =
     \<lparr>energy_K = kinetic (sim_bodies s),
      energy_U = potential (\<lambda>bodies i j. euclid bodies i j + 1 / 10 ^ 12) (sim_bodies s),
      energy_total = kinetic (sim_bodies s)
        + potential (\<lambda>bodies i j. euclid bodies i j + 1 / 10 ^ 12) (sim_bodies s)\<rparr>"
proof -
  have "softenedDistance = (\<lambda>bodies i j. euclid bodies i j + 1 / 10 ^ 12)"
    by (intro ext) (simp add: softenedDistance_def softening_def)
  then show ?thesis using computeEnergy_eq[of s] by simp
qed

section \<open>The set-up of the default bodies\<close>

lemma newBody_fst:
  "fst (newBody opts g) =
      \<lparr>name = opts_name opts,
           mass = opts_mass opts,
           r = \<lparr>vec_x = orNum (opts_x opts) 0, vec_y = orNum (opts_y opts) 0\<rparr>,
           v = \<lparr>vec_x = orNum (opts_vx opts) 0, vec_y = orNum (opts_vy opts) 0\<rparr>,
           color = orStr (opts_color opts) ''#ffffff'',
           radiusKm = orNum (opts_radiusKm opts) 1000,
           sideSize = orNum (opts_sideSize opts) 1,
           renderRadius = orNum (opts_renderRadius opts)
                            (max 3 (log 10 (if orNum (opts_radiusKm opts) 1000 = 0 then 1000 else orNum (opts_radiusKm opts) 1000) * 2.0)),
           hasRings = orBool (opts_rings opts) False,
           textureSeed = fst (random g),
           info = orStr (opts_info opts) []\<rparr>"
  unfolding newBody_def Let_def case_prod_beta fst_conv ..

lemma newBody_fields:
  "mass (fst (newBody opts g)) = opts_mass opts"
  "v (fst (newBody opts g)) = \<lparr>vec_x = orNum (opts_vx opts) 0, vec_y = orNum (opts_vy opts) 0\<rparr>"
  "name (fst (newBody opts g)) = opts_name opts"
  unfolding newBody_fst by simp_all

lemma asteroidStep_appends: "\<exists>b. fst (asteroidStep p k st) = fst st @ [b]"
  unfolding asteroidStep_def Let_def case_prod_beta fst_conv by (rule exI) (rule refl)

lemma asteroidLoop_appends:
  "\<exists>bs. fst (fold (asteroidStep p) ks st) = fst st @ bs \<and> length bs = length ks"
proof (induction ks arbitrary: st)
  case Nil
  then show ?case by simp
next
  case (Cons k ks)
  from asteroidStep_appends[of p k st] obtain b where
    b: "fst (asteroidStep p k st) = fst st @ [b]" by blast
  from Cons.IH[of "asteroidStep p k st"] obtain bs where
    bs: "fst (fold (asteroidStep p) ks (asteroidStep p k st)) = fst (asteroidStep p k st) @ bs"
    "length bs = length ks" by blast
  show ?case using b bs by (intro exI[of _ "b # bs"]) simp
qed

lemma presetStep_appends:
  "\<exists>bs. fst (presetStep p st) = fst st @ bs \<and>
         length bs = (if p_synthetic p then 120 else 1)"
proof (cases "p_synthetic p")
  case True
  then show ?thesis using asteroidLoop_appends[of p "[0..<120]" st] by (simp add: presetStep_def)
next
  case False
  have "\<exists>b. fst (presetStep p st) = fst st @ [b]"
    unfolding presetStep_def Let_def case_prod_beta if_not_P[OF False] fst_conv
    by (rule exI) (rule refl)
  then obtain b where "fst (presetStep p st) = fst st @ [b]" by blast
  then show ?thesis using False by (intro exI[of _ "[b]"]) simp
qed

lemma presetLoop_appends:
  "\<exists>bs. fst (fold presetStep ps st) = fst st @ bs \<and>
         length bs = (\<Sum>p \<leftarrow> ps. if p_synthetic p then 120 else 1)"
proof (induction ps arbitrary: st)
  case Nil
  then show ?case by simp
next
  case (Cons p ps)
  from presetStep_appends[of p st] obtain b1 where
    b1: "fst (presetStep p st) = fst st @ b1" "length b1 = (if p_synthetic p then 120 else 1)"
    by blast
  from Cons.IH[of "presetStep p st"] obtain b2 where
    b2: "fst (fold presetStep ps (presetStep p st)) = fst (presetStep p st) @ b2"
    "length b2 = (\<Sum>p \<leftarrow> ps. if p_synthetic p then 120 else 1)" by blast
  show ?case using b1 b2 by (intro exI[of _ "b1 @ b2"]) simp
qed

lemma presets_count: "(\<Sum>p \<leftarrow> presets. if p_synthetic p then 120 else 1) = (128::nat)"
  by (simp add: presets_def mkPreset_def)

lemma momentumLoop_eq:
  "fold momentumStep bs pxy =
     (fst pxy + (\<Sum>b \<leftarrow> bs. mass b * vec_x (v b)), snd pxy + (\<Sum>b \<leftarrow> bs. mass b * vec_y (v b)))"
  by (induction bs arbitrary: pxy) (simp_all add: momentumStep_def)

lemma nudge_zeroes_momentum:
  assumes "mass b0 \<noteq> 0" "v b0 = \<lparr>vec_x = 0, vec_y = 0\<rparr>"
  shows "totalMomentum
           ((b0 # rest)[0 := b0\<lparr>v := \<lparr>vec_x = - fst (fold momentumStep (b0 # rest) (0, 0)) / mass b0,
                                      vec_y = - snd (fold momentumStep (b0 # rest) (0, 0)) / mass b0\<rparr>\<rparr>])
         = \<lparr>vec_x = 0, vec_y = 0\<rparr>"
  unfolding momentumLoop_eq totalMomentum_def using assms by simp

lemma sun_fields:
  "mass (fst (newBody sunOpts g)) = 1" "v (fst (newBody sunOpts g)) = \<lparr>vec_x = 0, vec_y = 0\<rparr>"
  by (simp_all add: newBody_fields sunOpts_def orNum_def)

lemma setupDefaultBodies_bodies:
  "\<exists>rest. length rest = 128 \<and>
     sim_bodies (fst (setupDefaultBodies g s)) =
       (fst (newBody sunOpts g) # rest)
         [0 := (fst (newBody sunOpts g))
            \<lparr>v := \<lparr>vec_x = - fst (fold momentumStep (fst (newBody sunOpts g) # rest) (0, 0))
                              / mass (fst (newBody sunOpts g)),
                   vec_y = - snd (fold momentumStep (fst (newBody sunOpts g) # rest) (0, 0))
                              / mass (fst (newBody sunOpts g))\<rparr>\<rparr>] \<and>
     sim_trails (fst (setupDefaultBodies g s)) = replicate 129 []"
proof -
  let ?sun = "fst (newBody sunOpts g)"
  let ?placed = "fst (fold presetStep presets ([?sun], snd (newBody sunOpts g)))"
  from presetLoop_appends[of presets "([?sun], snd (newBody sunOpts g))"] obtain rest where
    rest: "?placed = ?sun # rest" "length rest = 128"
    by (auto simp: presets_count)
  have "sim_bodies (fst (setupDefaultBodies g s)) =
       ?placed[0 := (?placed ! 0)\<lparr>v := \<lparr>vec_x = - fst (fold momentumStep ?placed (0, 0)) / mass (?placed ! 0),
                   vec_y = - snd (fold momentumStep ?placed (0, 0)) / mass (?placed ! 0)\<rparr>\<rparr>]"
    by (simp add: setupDefaultBodies_def Let_def case_prod_beta)
  then have b: "sim_bodies (fst (setupDefaultBodies g s)) =
       (?sun # rest)[0 := ?sun\<lparr>v := \<lparr>vec_x = - fst (fold momentumStep (?sun # rest) (0, 0)) / mass ?sun,
                   vec_y = - snd (fold momentumStep (?sun # rest) (0, 0)) / mass ?sun\<rparr>\<rparr>]"
    unfolding rest(1) by (simp only: nth_Cons_0)
  have "sim_trails (fst (setupDefaultBodies g s)) = map (\<lambda>b. []) (sim_bodies (fst (setupDefaultBodies g s)))"
    by (simp add: setupDefaultBodies_def Let_def case_prod_beta)
  then have "sim_trails (fst (setupDefaultBodies g s)) = replicate 129 []"
    unfolding b using rest(2) by (simp add: map_replicate_const)
  then show ?thesis using rest(2) b by (intro exI[of _ rest]) simp
qed

lemma orNum_Some_0: "orNum (Some x) 0 = x"
  by (simp add: orNum_def)

lemma newBody_snd: "snd (newBody opts g) = (\<lambda>n. g (Suc n))"
  unfolding newBody_def Let_def case_prod_beta snd_conv random_def ..

lemma newBody_r:
  "r (fst (newBody opts g)) = \<lparr>vec_x = orNum (opts_x opts) 0, vec_y = orNum (opts_y opts) 0\<rparr>"
  unfolding newBody_fst by simp

lemma presetStep_planet:
  assumes "\<not> p_synthetic p"
  shows "\<exists>b. presetStep p (bs, g) = (bs @ [b], \<lambda>n. g (n + 2)) \<and>
     name b = p_name p \<and> mass b = p_mass p \<and>
     r b = onOrbit (p_a p) (g 0 * pi * 2) \<and>
     v b = circularVelocity (p_a p) (g 0 * pi * 2)"
proof -
  define opts where "opts =
     \<lparr>opts_name = p_name p, opts_mass = p_mass p,
                opts_x = Some (cos (g 0 * pi * 2) * p_a p), opts_y = Some (sin (g 0 * pi * 2) * p_a p),
                opts_vx = Some (- sin (g 0 * pi * 2) * (2 * pi / sqrt (p_a p)) / 365.25),
                opts_vy = Some (cos (g 0 * pi * 2) * (2 * pi / sqrt (p_a p)) / 365.25),
                opts_color = Some (p_color p), opts_radiusKm = Some (p_radiusKm p),
                opts_sideSize = None, opts_renderRadius = Some (p_rFactor p),
                opts_rings = Some (p_rings p),
                opts_info = Some (p_name p @ '' '' @ [CHR 0xE2, CHR 0x80, CHR 0x94]
                                    @ '' beautiful planet'')\<rparr>"
  have step: "presetStep p (bs, g) =
      (bs @ [fst (newBody opts (\<lambda>n. g (Suc n)))], snd (newBody opts (\<lambda>n. g (Suc n))))"
    unfolding presetStep_def Let_def case_prod_beta if_not_P[OF assms] fst_conv snd_conv
      random_def opts_def ..
  have rng: "snd (newBody opts (\<lambda>n. g (Suc n))) = (\<lambda>n. g (n + 2))"
    unfolding newBody_snd by (intro ext) simp
  have f: "name (fst (newBody opts (\<lambda>n. g (Suc n)))) = p_name p"
    "mass (fst (newBody opts (\<lambda>n. g (Suc n)))) = p_mass p"
    "r (fst (newBody opts (\<lambda>n. g (Suc n)))) = onOrbit (p_a p) (g 0 * pi * 2)"
    "v (fst (newBody opts (\<lambda>n. g (Suc n)))) = circularVelocity (p_a p) (g 0 * pi * 2)"
    unfolding newBody_fields newBody_r
    by (simp_all add: opts_def orNum_Some_0 onOrbit_def circularVelocity_def)
  show ?thesis unfolding step rng using f by blast
qed

lemma asteroidStep_closed:
  "\<exists>b. asteroidStep p k (bs, g) = (bs @ [b], \<lambda>n. g (n + 4)) \<and>
     name b = ''Asteroid-'' @ string_of_nat k \<and> mass b = 3 / 10 ^ 12 \<and>
     r b = onOrbit (p_a p + (g 1 - 0.5) * 0.25) (g 0 * pi * 2) \<and>
     v b = circularVelocity (p_a p + (g 1 - 0.5) * 0.25) (g 0 * pi * 2)"
proof -
  define a where "a = p_a p + (g (Suc 0) - 0.5) * 0.25"
  define opts where "opts =
     \<lparr>opts_name = ''Asteroid-'' @ string_of_nat k, opts_mass = 3 / 10 ^ 12,
             opts_x = Some (cos (g 0 * pi * 2) * a), opts_y = Some (sin (g 0 * pi * 2) * a),
             opts_vx = None, opts_vy = None,
             opts_color = Some ''#9c9c9c'', opts_radiusKm = Some (80 + g (Suc (Suc 0)) * 120),
             opts_sideSize = None, opts_renderRadius = Some (p_rFactor p * 0.45),
             opts_rings = None, opts_info = None\<rparr>"
  let ?g3 = "\<lambda>n. g (Suc (Suc (Suc n)))"
  have step: "asteroidStep p k (bs, g) =
      (bs @ [(fst (newBody opts ?g3))\<lparr>v := \<lparr>vec_x = - sin (g 0 * pi * 2) * (2 * pi / sqrt a) / 365.25,
                             vec_y = cos (g 0 * pi * 2) * (2 * pi / sqrt a) / 365.25\<rparr>\<rparr>],
       snd (newBody opts ?g3))"
    unfolding asteroidStep_def Let_def case_prod_beta fst_conv snd_conv random_def opts_def a_def ..
  have rng: "snd (newBody opts ?g3) = (\<lambda>n. g (n + 4))"
    unfolding newBody_snd by (intro ext) (simp add: numeral_eq_Suc)
  have a1: "a = p_a p + (g 1 - 0.5) * 0.25" by (simp add: a_def)
  let ?b = "(fst (newBody opts ?g3))\<lparr>v := \<lparr>vec_x = - sin (g 0 * pi * 2) * (2 * pi / sqrt a) / 365.25,
                             vec_y = cos (g 0 * pi * 2) * (2 * pi / sqrt a) / 365.25\<rparr>\<rparr>"
  have "name ?b = name (fst (newBody opts ?g3))" "mass ?b = mass (fst (newBody opts ?g3))"
    "r ?b = r (fst (newBody opts ?g3))" by simp_all
  then have f: "name ?b = ''Asteroid-'' @ string_of_nat k" "mass ?b = 3 / 10 ^ 12"
    "r ?b = onOrbit a (g 0 * pi * 2)"
    unfolding newBody_fields newBody_r
    by (simp_all add: opts_def orNum_Some_0 onOrbit_def)
  have fv: "v ?b = circularVelocity a (g 0 * pi * 2)"
    by (simp add: circularVelocity_def)
  show ?thesis unfolding step rng using f fv unfolding a1 by blast
qed

lemma drawsFrom_simps:
  "drawsFrom d g 0 = g d" "drawsFrom d g 1 = g (d + 1)" "drawsFrom 0 g = g"
  "(\<lambda>n. drawsFrom d g (n + e)) = drawsFrom (d + e) g"
  "(\<lambda>n. drawsFrom d g (Suc n)) = drawsFrom (d + 1) g"
proof -
  show "drawsFrom d g 0 = g d" "drawsFrom d g 1 = g (d + 1)" "drawsFrom 0 g = g"
    by (simp_all add: drawsFrom_def)
  have a: "d + (n + e) = d + e + n" for n by simp
  show "(\<lambda>n. drawsFrom d g (n + e)) = drawsFrom (d + e) g"
    unfolding drawsFrom_def a ..
  have b: "d + Suc n = d + 1 + n" for n by simp
  show "(\<lambda>n. drawsFrom d g (Suc n)) = drawsFrom (d + 1) g"
    unfolding drawsFrom_def b ..
qed

lemma presetStep_planet_at:
  assumes "\<not> p_synthetic p"
  shows "\<exists>b. presetStep p (bs, drawsFrom d g) = (bs @ [b], drawsFrom (d + 2) g) \<and>
     name b = p_name p \<and> mass b = p_mass p \<and>
     r b = onOrbit (p_a p) (g d * pi * 2) \<and>
     v b = circularVelocity (p_a p) (g d * pi * 2)"
  using presetStep_planet[OF assms, of bs "drawsFrom d g"]
  unfolding drawsFrom_simps .

lemma asteroidStep_at:
  "\<exists>b. asteroidStep p k (bs, drawsFrom d g) = (bs @ [b], drawsFrom (d + 4) g) \<and>
     name b = ''Asteroid-'' @ string_of_nat k \<and> mass b = 3 / 10 ^ 12 \<and>
     r b = onOrbit (p_a p + (g (d + 1) - 0.5) * 0.25) (g d * pi * 2) \<and>
     v b = circularVelocity (p_a p + (g (d + 1) - 0.5) * 0.25) (g d * pi * 2)"
  using asteroidStep_closed[of p k bs "drawsFrom d g"]
  unfolding drawsFrom_simps .

lemma asteroidLoop_at:
  "\<exists>as. fold (asteroidStep p) [0..<m] (bs, drawsFrom d g) = (bs @ as, drawsFrom (d + 4 * m) g) \<and>
     length as = m \<and>
     (\<forall>k<m. name (as ! k) = ''Asteroid-'' @ string_of_nat k \<and> mass (as ! k) = 3 / 10 ^ 12 \<and>
        r (as ! k) = onOrbit (p_a p + (g (d + 4 * k + 1) - 0.5) * 0.25) (g (d + 4 * k) * pi * 2) \<and>
        v (as ! k) = circularVelocity (p_a p + (g (d + 4 * k + 1) - 0.5) * 0.25) (g (d + 4 * k) * pi * 2))"
proof (induction m)
  case 0
  show ?case by (intro exI[of _ "[]"]) simp
next
  case (Suc m)
  then obtain as where as:
    "fold (asteroidStep p) [0..<m] (bs, drawsFrom d g) = (bs @ as, drawsFrom (d + 4 * m) g)"
    "length as = m"
    "\<forall>k<m. name (as ! k) = ''Asteroid-'' @ string_of_nat k \<and> mass (as ! k) = 3 / 10 ^ 12 \<and>
        r (as ! k) = onOrbit (p_a p + (g (d + 4 * k + 1) - 0.5) * 0.25) (g (d + 4 * k) * pi * 2) \<and>
        v (as ! k) = circularVelocity (p_a p + (g (d + 4 * k + 1) - 0.5) * 0.25) (g (d + 4 * k) * pi * 2)"
    by blast
  from asteroidStep_at[of p m "bs @ as" "d + 4 * m" g] obtain b where b:
    "asteroidStep p m (bs @ as, drawsFrom (d + 4 * m) g) = ((bs @ as) @ [b], drawsFrom (d + 4 * m + 4) g)"
    "name b = ''Asteroid-'' @ string_of_nat m" "mass b = 3 / 10 ^ 12"
    "r b = onOrbit (p_a p + (g (d + 4 * m + 1) - 0.5) * 0.25) (g (d + 4 * m) * pi * 2)"
    "v b = circularVelocity (p_a p + (g (d + 4 * m + 1) - 0.5) * 0.25) (g (d + 4 * m) * pi * 2)"
    by blast
  have run: "fold (asteroidStep p) [0..<Suc m] (bs, drawsFrom d g)
      = (bs @ (as @ [b]), drawsFrom (d + 4 * Suc m) g)"
  proof -
    have e: "d + 4 * m + 4 = d + 4 * Suc m" by simp
    have "fold (asteroidStep p) [0..<Suc m] (bs, drawsFrom d g)
        = asteroidStep p m (fold (asteroidStep p) [0..<m] (bs, drawsFrom d g))"
      by simp
    also have "\<dots> = asteroidStep p m (bs @ as, drawsFrom (d + 4 * m) g)"
      by (simp only: as(1))
    also have "\<dots> = ((bs @ as) @ [b], drawsFrom (d + 4 * m + 4) g)"
      by (rule b(1))
    finally show ?thesis unfolding e by (simp only: append_assoc)
  qed
  have all: "\<forall>k<Suc m. name ((as @ [b]) ! k) = ''Asteroid-'' @ string_of_nat k \<and>
        mass ((as @ [b]) ! k) = 3 / 10 ^ 12 \<and>
        r ((as @ [b]) ! k) = onOrbit (p_a p + (g (d + 4 * k + 1) - 0.5) * 0.25) (g (d + 4 * k) * pi * 2) \<and>
        v ((as @ [b]) ! k) = circularVelocity (p_a p + (g (d + 4 * k + 1) - 0.5) * 0.25) (g (d + 4 * k) * pi * 2)"
  proof (intro allI impI)
    fix k assume "k < Suc m"
    then consider "k < m" | "k = m" by linarith
    then show "name ((as @ [b]) ! k) = ''Asteroid-'' @ string_of_nat k \<and>
        mass ((as @ [b]) ! k) = 3 / 10 ^ 12 \<and>
        r ((as @ [b]) ! k) = onOrbit (p_a p + (g (d + 4 * k + 1) - 0.5) * 0.25) (g (d + 4 * k) * pi * 2) \<and>
        v ((as @ [b]) ! k) = circularVelocity (p_a p + (g (d + 4 * k + 1) - 0.5) * 0.25) (g (d + 4 * k) * pi * 2)"
    proof cases
      case 1
      then have "(as @ [b]) ! k = as ! k" using as(2) by (simp add: nth_append)
      then show ?thesis using as(3) 1 by simp
    next
      case 2
      then have "(as @ [b]) ! k = b" using as(2) by (simp add: nth_append)
      then show ?thesis using b(2-5) 2 by simp
    qed
  qed
  show ?case using run all as(2) by (intro exI[of _ "as @ [b]"]) simp
qed

lemma presets_nth:
  "presets = [presets ! 0, presets ! 1, presets ! 2, presets ! 3, presets ! 4,
              presets ! 5, presets ! 6, presets ! 7, presets ! 8]"
  "\<not> p_synthetic (presets ! 0)" "\<not> p_synthetic (presets ! 1)" "\<not> p_synthetic (presets ! 2)"
  "\<not> p_synthetic (presets ! 3)" "p_synthetic (presets ! 4)" "\<not> p_synthetic (presets ! 5)"
  "\<not> p_synthetic (presets ! 6)" "\<not> p_synthetic (presets ! 7)" "\<not> p_synthetic (presets ! 8)"
  by (simp_all add: presets_def mkPreset_def)

lemma presetStep_belt:
  assumes "p_synthetic p"
  shows "presetStep p st = fold (asteroidStep p) [0..<120] st"
  using assms by (simp add: presetStep_def)

lemma presetStep_placedAt:
  assumes "\<not> p_synthetic p"
  shows "\<exists>b. presetStep p (bs, drawsFrom d g) = (bs @ [b], drawsFrom (d + 2) g) \<and>
     placedAt (p_name p) (p_mass p) (p_a p) (g d * pi * 2) b"
  using presetStep_planet_at[OF assms, of bs d g] unfolding placedAt_def .

lemma asteroidLoop_placedAt:
  "\<exists>as. fold (asteroidStep p) [0..<m] (bs, drawsFrom d g) = (bs @ as, drawsFrom (d + 4 * m) g) \<and>
     length as = m \<and>
     (\<forall>k<m. placedAt (''Asteroid-'' @ string_of_nat k) (3 / 10 ^ 12)
         (p_a p + (g (d + 4 * k + 1) - 0.5) * 0.25) (g (d + 4 * k) * pi * 2) (as ! k))"
  using asteroidLoop_at[of p m bs d g] unfolding placedAt_def .

lemma presets_fields:
  "p_name (presets ! 0) = ''Mercury''" "p_mass (presets ! 0) = 1.6601 / 10 ^ 7" "p_a (presets ! 0) = 0.387"
  "p_name (presets ! 1) = ''Venus''" "p_mass (presets ! 1) = 2.447 / 10 ^ 6" "p_a (presets ! 1) = 0.723"
  "p_name (presets ! 2) = ''Earth''" "p_mass (presets ! 2) = 3.003 / 10 ^ 6" "p_a (presets ! 2) = 1"
  "p_name (presets ! 3) = ''Mars''" "p_mass (presets ! 3) = 3.213 / 10 ^ 7" "p_a (presets ! 3) = 1.524"
  "p_a (presets ! 4) = 2.8"
  "p_name (presets ! 5) = ''Jupiter''" "p_mass (presets ! 5) = 0.0009543" "p_a (presets ! 5) = 5.203"
  "p_name (presets ! 6) = ''Saturn''" "p_mass (presets ! 6) = 0.0002857" "p_a (presets ! 6) = 9.537"
  "p_name (presets ! 7) = ''Uranus''" "p_mass (presets ! 7) = 4.366 / 10 ^ 5" "p_a (presets ! 7) = 19.191"
  "p_name (presets ! 8) = ''Neptune''" "p_mass (presets ! 8) = 5.151 / 10 ^ 5" "p_a (presets ! 8) = 30.07"
  by (simp_all add: presets_def mkPreset_def)

lemma placed_closed:
  "\<exists>b1 b2 b3 b4 as b5 b6 b7 b8.
     fst (fold presetStep presets ([sun], drawsFrom 1 g)) = [sun, b1, b2, b3, b4] @ as @ [b5, b6, b7, b8] \<and>
     length as = 120 \<and>
     placedAt ''Mercury'' (1.6601 / 10 ^ 7) 0.387 (g 1 * pi * 2) b1 \<and>
     placedAt ''Venus'' (2.447 / 10 ^ 6) 0.723 (g 3 * pi * 2) b2 \<and>
     placedAt ''Earth'' (3.003 / 10 ^ 6) 1 (g 5 * pi * 2) b3 \<and>
     placedAt ''Mars'' (3.213 / 10 ^ 7) 1.524 (g 7 * pi * 2) b4 \<and>
     (\<forall>k<120. placedAt (''Asteroid-'' @ string_of_nat k) (3 / 10 ^ 12)
         (2.8 + (g (10 + 4 * k) - 0.5) * 0.25) (g (9 + 4 * k) * pi * 2) (as ! k)) \<and>
     placedAt ''Jupiter'' 0.0009543 5.203 (g 489 * pi * 2) b5 \<and>
     placedAt ''Saturn'' 0.0002857 9.537 (g 491 * pi * 2) b6 \<and>
     placedAt ''Uranus'' (4.366 / 10 ^ 5) 19.191 (g 493 * pi * 2) b7 \<and>
     placedAt ''Neptune'' (5.151 / 10 ^ 5) 30.07 (g 495 * pi * 2) b8"
proof -
  note P = presets_nth(2-)
  have e: "(1::nat) + 2 = 3" "(3::nat) + 2 = 5" "(5::nat) + 2 = 7" "(7::nat) + 2 = 9"
    "(9::nat) + 4 * 120 = 489" "(489::nat) + 2 = 491" "(491::nat) + 2 = 493"
    "(493::nat) + 2 = 495" "(495::nat) + 2 = 497"
    by simp_all
  from presetStep_placedAt[OF P(1), of "[sun]" 1 g] obtain b1 where
    1: "presetStep (presets ! 0) ([sun], drawsFrom 1 g) = ([sun, b1], drawsFrom 3 g)"
    and f1: "placedAt ''Mercury'' (1.6601 / 10 ^ 7) 0.387 (g 1 * pi * 2) b1"
    unfolding presets_fields e append.simps by blast
  from presetStep_placedAt[OF P(2), of "[sun, b1]" 3 g] obtain b2 where
    2: "presetStep (presets ! 1) ([sun, b1], drawsFrom 3 g) = ([sun, b1, b2], drawsFrom 5 g)"
    and f2: "placedAt ''Venus'' (2.447 / 10 ^ 6) 0.723 (g 3 * pi * 2) b2"
    unfolding presets_fields e append.simps by blast
  from presetStep_placedAt[OF P(3), of "[sun, b1, b2]" 5 g] obtain b3 where
    3: "presetStep (presets ! 2) ([sun, b1, b2], drawsFrom 5 g) = ([sun, b1, b2, b3], drawsFrom 7 g)"
    and f3: "placedAt ''Earth'' (3.003 / 10 ^ 6) 1 (g 5 * pi * 2) b3"
    unfolding presets_fields e append.simps by blast
  from presetStep_placedAt[OF P(4), of "[sun, b1, b2, b3]" 7 g] obtain b4 where
    4: "presetStep (presets ! 3) ([sun, b1, b2, b3], drawsFrom 7 g) = ([sun, b1, b2, b3, b4], drawsFrom 9 g)"
    and f4: "placedAt ''Mars'' (3.213 / 10 ^ 7) 1.524 (g 7 * pi * 2) b4"
    unfolding presets_fields e append.simps by blast
  let ?five = "[sun, b1, b2, b3, b4]"
  have idx: "9 + 4 * k + 1 = 10 + 4 * k" for k :: nat by simp
  from asteroidLoop_placedAt[of "presets ! 4" 120 ?five 9 g] obtain as where
    5: "presetStep (presets ! 4) (?five, drawsFrom 9 g) = (?five @ as, drawsFrom 489 g)"
    and las: "length as = 120"
    and fa: "\<forall>k<120. placedAt (''Asteroid-'' @ string_of_nat k) (3 / 10 ^ 12)
         (2.8 + (g (10 + 4 * k) - 0.5) * 0.25) (g (9 + 4 * k) * pi * 2) (as ! k)"
    unfolding presetStep_belt[OF P(5)] presets_fields idx e by blast
  from presetStep_placedAt[OF P(6), of "?five @ as" 489 g] obtain b5 where
    6: "presetStep (presets ! 5) (?five @ as, drawsFrom 489 g) = ((?five @ as) @ [b5], drawsFrom 491 g)"
    and f5: "placedAt ''Jupiter'' 0.0009543 5.203 (g 489 * pi * 2) b5"
    unfolding presets_fields e append.simps by blast
  from presetStep_placedAt[OF P(7), of "(?five @ as) @ [b5]" 491 g] obtain b6 where
    7: "presetStep (presets ! 6) ((?five @ as) @ [b5], drawsFrom 491 g) = (((?five @ as) @ [b5]) @ [b6], drawsFrom 493 g)"
    and f6: "placedAt ''Saturn'' 0.0002857 9.537 (g 491 * pi * 2) b6"
    unfolding presets_fields e append.simps by blast
  from presetStep_placedAt[OF P(8), of "((?five @ as) @ [b5]) @ [b6]" 493 g] obtain b7 where
    8: "presetStep (presets ! 7) (((?five @ as) @ [b5]) @ [b6], drawsFrom 493 g) = ((((?five @ as) @ [b5]) @ [b6]) @ [b7], drawsFrom 495 g)"
    and f7: "placedAt ''Uranus'' (4.366 / 10 ^ 5) 19.191 (g 493 * pi * 2) b7"
    unfolding presets_fields e append.simps by blast
  from presetStep_placedAt[OF P(9), of "(((?five @ as) @ [b5]) @ [b6]) @ [b7]" 495 g] obtain b8 where
    9: "presetStep (presets ! 8) ((((?five @ as) @ [b5]) @ [b6]) @ [b7], drawsFrom 495 g) = (((((?five @ as) @ [b5]) @ [b6]) @ [b7]) @ [b8], drawsFrom 497 g)"
    and f8: "placedAt ''Neptune'' (5.151 / 10 ^ 5) 30.07 (g 495 * pi * 2) b8"
    unfolding presets_fields e append.simps by blast
  have "fold presetStep presets ([sun], drawsFrom 1 g)
      = (((((?five @ as) @ [b5]) @ [b6]) @ [b7]) @ [b8], drawsFrom 497 g)"
    by (subst presets_nth(1)) (simp only: fold_Cons fold_Nil comp_apply id_apply 1 2 3 4 5 6 7 8 9)
  then have "fst (fold presetStep presets ([sun], drawsFrom 1 g)) = ?five @ as @ [b5, b6, b7, b8]"
    by simp
  then show ?thesis using las f1 f2 f3 f4 fa f5 f6 f7 f8 by blast
qed

lemma setupDefaultBodies_placed:
  "sim_bodies (fst (setupDefaultBodies g s)) =
     (let placed = fst (fold presetStep presets ([fst (newBody sunOpts g)], drawsFrom 1 g))
      in placed[0 := (placed ! 0)\<lparr>v := \<lparr>vec_x = - fst (fold momentumStep placed (0, 0)) / mass (placed ! 0),
                   vec_y = - snd (fold momentumStep placed (0, 0)) / mass (placed ! 0)\<rparr>\<rparr>])"
  "sim_trails (fst (setupDefaultBodies g s)) = map (\<lambda>b. []) (sim_bodies (fst (setupDefaultBodies g s)))"
proof -
  have rng: "snd (newBody sunOpts g) = drawsFrom 1 g"
    unfolding newBody_snd drawsFrom_def by simp
  show "sim_bodies (fst (setupDefaultBodies g s)) =
     (let placed = fst (fold presetStep presets ([fst (newBody sunOpts g)], drawsFrom 1 g))
      in placed[0 := (placed ! 0)\<lparr>v := \<lparr>vec_x = - fst (fold momentumStep placed (0, 0)) / mass (placed ! 0),
                   vec_y = - snd (fold momentumStep placed (0, 0)) / mass (placed ! 0)\<rparr>\<rparr>])"
    unfolding rng[symmetric] by (simp add: setupDefaultBodies_def Let_def case_prod_beta)
  show "sim_trails (fst (setupDefaultBodies g s)) = map (\<lambda>b. []) (sim_bodies (fst (setupDefaultBodies g s)))"
    by (simp add: setupDefaultBodies_def Let_def case_prod_beta)
qed

lemma sun_placed:
  "name (fst (newBody sunOpts g)) = ''Sun''"
  "r (fst (newBody sunOpts g)) = \<lparr>vec_x = 0, vec_y = 0\<rparr>"
  by (simp_all add: newBody_fields newBody_r sunOpts_def orNum_def)

text \<open>
  Claim C5. Right after the set-up of the default bodies, whatever the random draws,
  there are 129 bodies, each with an empty trail. Bodies 1 to 4 and 125 to 128 are the
  eight planets and bodies 5 to 124 the 120 asteroids, each with its name and mass, at
  its drawn angle on its orbit and with the tangential velocity of a circular orbit,
  just as they were placed. Body 0 is the Sun, of mass 1 at the origin, and its velocity
  is minus the summed momentum of all the other bodies over its mass. So the total
  momentum, the sum of mass times velocity over all bodies, is exactly \<open>(0, 0)\<close>.
\<close>

theorem setupDefaultBodies_momentum_zero:
  "totalMomentum (sim_bodies (fst (setupDefaultBodies g s))) = \<lparr>vec_x = 0, vec_y = 0\<rparr> \<and>
   length (sim_bodies (fst (setupDefaultBodies g s))) = 129 \<and>
   sim_trails (fst (setupDefaultBodies g s)) = replicate 129 [] \<and>
   name (sim_bodies (fst (setupDefaultBodies g s)) ! 0) = ''Sun'' \<and>
   mass (sim_bodies (fst (setupDefaultBodies g s)) ! 0) = 1 \<and>
   r (sim_bodies (fst (setupDefaultBodies g s)) ! 0) = \<lparr>vec_x = 0, vec_y = 0\<rparr> \<and>
   v (sim_bodies (fst (setupDefaultBodies g s)) ! 0) =
     \<lparr>vec_x = - (\<Sum>b \<leftarrow> tl (sim_bodies (fst (setupDefaultBodies g s))). mass b * vec_x (v b))
                / mass (sim_bodies (fst (setupDefaultBodies g s)) ! 0),
      vec_y = - (\<Sum>b \<leftarrow> tl (sim_bodies (fst (setupDefaultBodies g s))). mass b * vec_y (v b))
                / mass (sim_bodies (fst (setupDefaultBodies g s)) ! 0)\<rparr> \<and>
   (\<forall>(i, d, nm, a, m) \<in> set
        [(1, 1, ''Mercury'', 0.387, 1.6601 / 10 ^ 7),
         (2, 3, ''Venus'', 0.723, 2.447 / 10 ^ 6),
         (3, 5, ''Earth'', 1, 3.003 / 10 ^ 6),
         (4, 7, ''Mars'', 1.524, 3.213 / 10 ^ 7),
         (125, 489, ''Jupiter'', 5.203, 0.0009543),
         (126, 491, ''Saturn'', 9.537, 0.0002857),
         (127, 493, ''Uranus'', 19.191, 4.366 / 10 ^ 5),
         (128, 495, ''Neptune'', 30.07, 5.151 / 10 ^ 5)].
      name (sim_bodies (fst (setupDefaultBodies g s)) ! i) = nm \<and>
      mass (sim_bodies (fst (setupDefaultBodies g s)) ! i) = m \<and>
      r (sim_bodies (fst (setupDefaultBodies g s)) ! i) = onOrbit a (g d * pi * 2) \<and>
      v (sim_bodies (fst (setupDefaultBodies g s)) ! i) = circularVelocity a (g d * pi * 2)) \<and>
   (\<forall>k<120.
      name (sim_bodies (fst (setupDefaultBodies g s)) ! (5 + k)) = ''Asteroid-'' @ string_of_nat k \<and>
      mass (sim_bodies (fst (setupDefaultBodies g s)) ! (5 + k)) = 3 / 10 ^ 12 \<and>
      r (sim_bodies (fst (setupDefaultBodies g s)) ! (5 + k))
        = onOrbit (2.8 + (g (10 + 4 * k) - 0.5) * 0.25) (g (9 + 4 * k) * pi * 2) \<and>
      v (sim_bodies (fst (setupDefaultBodies g s)) ! (5 + k))
        = circularVelocity (2.8 + (g (10 + 4 * k) - 0.5) * 0.25) (g (9 + 4 * k) * pi * 2))"
proof -
  define sun where "sun = fst (newBody sunOpts g)"
  have sun: "name sun = ''Sun''" "mass sun = 1" "r sun = \<lparr>vec_x = 0, vec_y = 0\<rparr>"
    "v sun = \<lparr>vec_x = 0, vec_y = 0\<rparr>"
    unfolding sun_def by (simp_all add: sun_fields sun_placed)
  from placed_closed[of sun g] obtain b1 b2 b3 b4 as b5 b6 b7 b8 where
    placed: "fst (fold presetStep presets ([sun], drawsFrom 1 g)) = [sun, b1, b2, b3, b4] @ as @ [b5, b6, b7, b8]"
    and las: "length as = 120"
    and f: "placedAt ''Mercury'' (1.6601 / 10 ^ 7) 0.387 (g 1 * pi * 2) b1"
     "placedAt ''Venus'' (2.447 / 10 ^ 6) 0.723 (g 3 * pi * 2) b2"
     "placedAt ''Earth'' (3.003 / 10 ^ 6) 1 (g 5 * pi * 2) b3"
     "placedAt ''Mars'' (3.213 / 10 ^ 7) 1.524 (g 7 * pi * 2) b4"
     "placedAt ''Jupiter'' 0.0009543 5.203 (g 489 * pi * 2) b5"
     "placedAt ''Saturn'' 0.0002857 9.537 (g 491 * pi * 2) b6"
     "placedAt ''Uranus'' (4.366 / 10 ^ 5) 19.191 (g 493 * pi * 2) b7"
     "placedAt ''Neptune'' (5.151 / 10 ^ 5) 30.07 (g 495 * pi * 2) b8"
    and fa: "\<forall>k<120. placedAt (''Asteroid-'' @ string_of_nat k) (3 / 10 ^ 12)
         (2.8 + (g (10 + 4 * k) - 0.5) * 0.25) (g (9 + 4 * k) * pi * 2) (as ! k)"
    by blast
  define rest where "rest = [b1, b2, b3, b4] @ as @ [b5, b6, b7, b8]"
  define B where "B = sim_bodies (fst (setupDefaultBodies g s))"
  have placed': "fst (fold presetStep presets ([sun], drawsFrom 1 g)) = sun # rest"
    unfolding placed rest_def by simp
  have B: "B = (sun # rest)[0 := sun\<lparr>v := \<lparr>vec_x = - fst (fold momentumStep (sun # rest) (0, 0)) / mass sun,
                   vec_y = - snd (fold momentumStep (sun # rest) (0, 0)) / mass sun\<rparr>\<rparr>]"
    unfolding B_def setupDefaultBodies_placed(1) sun_def[symmetric] Let_def placed'
    by (simp only: nth_Cons_0)
  have p: "fold momentumStep (sun # rest) (0, 0) =
      ((\<Sum>b \<leftarrow> rest. mass b * vec_x (v b)), (\<Sum>b \<leftarrow> rest. mass b * vec_y (v b)))"
    unfolding momentumLoop_eq using sun(4) by simp
  have B': "B = sun\<lparr>v := \<lparr>vec_x = - (\<Sum>b \<leftarrow> rest. mass b * vec_x (v b)) / mass sun,
                   vec_y = - (\<Sum>b \<leftarrow> rest. mass b * vec_y (v b)) / mass sun\<rparr>\<rparr> # rest"
    unfolding B p by simp
  have lrest: "length rest = 128" unfolding rest_def using las by simp
  have m0: "mass sun \<noteq> 0" using sun(2) by simp
  have c1: "totalMomentum B = \<lparr>vec_x = 0, vec_y = 0\<rparr>"
    unfolding B by (rule nudge_zeroes_momentum[OF m0 sun(4)])
  have c2: "length B = 129" unfolding B' using lrest by simp
  have c3: "sim_trails (fst (setupDefaultBodies g s)) = replicate 129 []"
    unfolding setupDefaultBodies_placed(2) B_def[symmetric] using c2
    by (simp add: map_replicate_const)
  have c4: "name (B ! 0) = ''Sun''" "mass (B ! 0) = 1" "r (B ! 0) = \<lparr>vec_x = 0, vec_y = 0\<rparr>"
    unfolding B' using sun by simp_all
  have c5: "v (B ! 0) =
     \<lparr>vec_x = - (\<Sum>b \<leftarrow> tl B. mass b * vec_x (v b)) / mass (B ! 0),
      vec_y = - (\<Sum>b \<leftarrow> tl B. mass b * vec_y (v b)) / mass (B ! 0)\<rparr>"
    unfolding B' by simp
  have nth: "B ! 1 = b1" "B ! 2 = b2" "B ! 3 = b3" "B ! 4 = b4"
    "B ! 125 = b5" "B ! 126 = b6" "B ! 127 = b7" "B ! 128 = b8"
    unfolding B' rest_def using las by (simp_all add: nth_append)
  have c6: "\<forall>(i, d, nm, a, m) \<in> set
        [(1, 1, ''Mercury'', 0.387, 1.6601 / 10 ^ 7),
         (2, 3, ''Venus'', 0.723, 2.447 / 10 ^ 6),
         (3, 5, ''Earth'', 1, 3.003 / 10 ^ 6),
         (4, 7, ''Mars'', 1.524, 3.213 / 10 ^ 7),
         (125, 489, ''Jupiter'', 5.203, 0.0009543),
         (126, 491, ''Saturn'', 9.537, 0.0002857),
         (127, 493, ''Uranus'', 19.191, 4.366 / 10 ^ 5),
         (128, 495, ''Neptune'', 30.07, 5.151 / 10 ^ 5)].
      name (B ! i) = nm \<and> mass (B ! i) = m \<and>
      r (B ! i) = onOrbit a (g d * pi * 2) \<and> v (B ! i) = circularVelocity a (g d * pi * 2)"
    using f nth unfolding placedAt_def by simp
  have c7: "\<forall>k<120.
      name (B ! (5 + k)) = ''Asteroid-'' @ string_of_nat k \<and>
      mass (B ! (5 + k)) = 3 / 10 ^ 12 \<and>
      r (B ! (5 + k)) = onOrbit (2.8 + (g (10 + 4 * k) - 0.5) * 0.25) (g (9 + 4 * k) * pi * 2) \<and>
      v (B ! (5 + k)) = circularVelocity (2.8 + (g (10 + 4 * k) - 0.5) * 0.25) (g (9 + 4 * k) * pi * 2)"
  proof (intro allI impI)
    fix k :: nat assume k: "k < 120"
    have "B ! (5 + k) = as ! k"
      unfolding B' rest_def using las k by (simp add: nth_append)
    then show "name (B ! (5 + k)) = ''Asteroid-'' @ string_of_nat k \<and>
      mass (B ! (5 + k)) = 3 / 10 ^ 12 \<and>
      r (B ! (5 + k)) = onOrbit (2.8 + (g (10 + 4 * k) - 0.5) * 0.25) (g (9 + 4 * k) * pi * 2) \<and>
      v (B ! (5 + k)) = circularVelocity (2.8 + (g (10 + 4 * k) - 0.5) * 0.25) (g (9 + 4 * k) * pi * 2)"
      using fa k unfolding placedAt_def by simp
  qed
  show ?thesis
    using c1 c2 c3 c4 c5 c6 c7 unfolding B_def by blast
qed

theorem setupDefaultBodies_momentum_zero_witness:
  "totalMomentum (sim_bodies (fst (setupDefaultBodies (\<lambda>n. 0) demo1))) = \<lparr>vec_x = 0, vec_y = 0\<rparr> \<and>
   name (sim_bodies (fst (setupDefaultBodies (\<lambda>n. 0) demo1)) ! 3) = ''Earth'' \<and>
   mass (sim_bodies (fst (setupDefaultBodies (\<lambda>n. 0) demo1)) ! 3) = 3.003 / 10 ^ 6 \<and>
   r (sim_bodies (fst (setupDefaultBodies (\<lambda>n. 0) demo1)) ! 3) = \<lparr>vec_x = 1, vec_y = 0\<rparr> \<and>
   v (sim_bodies (fst (setupDefaultBodies (\<lambda>n. 0) demo1)) ! 3) = \<lparr>vec_x = 0, vec_y = 2 * pi / 365.25\<rparr> \<and>
   name (sim_bodies (fst (setupDefaultBodies (\<lambda>n. 0) demo1)) ! 5) = ''Asteroid-0'' \<and>
   r (sim_bodies (fst (setupDefaultBodies (\<lambda>n. 0) demo1)) ! 5) = \<lparr>vec_x = 2.675, vec_y = 0\<rparr>"
proof -
  define B where "B = sim_bodies (fst (setupDefaultBodies (\<lambda>n. 0) demo1))"
  note th = setupDefaultBodies_momentum_zero[of "\<lambda>n. 0" demo1, folded B_def]
  have total: "totalMomentum B = \<lparr>vec_x = 0, vec_y = 0\<rparr>"
    by (rule th[THEN conjunct1])
  note planets = th[THEN conjunct2, THEN conjunct2, THEN conjunct2, THEN conjunct2,
      THEN conjunct2, THEN conjunct2, THEN conjunct2, THEN conjunct1]
  note asteroids = th[THEN conjunct2, THEN conjunct2, THEN conjunct2, THEN conjunct2,
      THEN conjunct2, THEN conjunct2, THEN conjunct2, THEN conjunct2]
  have earth: "name (B ! 3) = ''Earth'' \<and> mass (B ! 3) = 3.003 / 10 ^ 6 \<and>
      r (B ! 3) = \<lparr>vec_x = 1, vec_y = 0\<rparr> \<and> v (B ! 3) = \<lparr>vec_x = 0, vec_y = 2 * pi / 365.25\<rparr>"
    using planets by (simp add: onOrbit_def circularVelocity_def)
  have zero: "string_of_nat 0 = ''0''"
    by (simp add: string_of_nat.simps[of 0] char_of_def bit_Suc_0_iff)
  have "(0::nat) < 120" by simp
  from asteroids[rule_format, OF this]
  have first: "name (B ! 5) = ''Asteroid-0'' \<and> r (B ! 5) = \<lparr>vec_x = 2.675, vec_y = 0\<rparr>"
    by (simp add: onOrbit_def zero)
  show ?thesis using total earth first unfolding B_def by blast
qed

end
